theory Spec2Isabelle
  imports Complex_Main "HOL-Library.Word"
begin

section \<open>The object detection demo: shapes of the detection output stage\<close>

text \<open>
  The demo (\<^verbatim>\<open>demos/object_detection_demo/main.cpp\<close>) appends a DetectionOutput stage to a
  Faster-RCNN network.  Its \<^verbatim>\<open>main\<close> derives the anchor count and the class count from
  the dimensions of three layers, sizes the output tensor, clamps the batch, fills the
  input blob and finally walks over the rows of the output tensor.

  Machine integers: \<^verbatim>\<open>size_t\<close> is a 64-bit word, \<^verbatim>\<open>int\<close> a 32-bit word read in two's
  complement (\<open>sint\<close>).  Whatever C++ leaves undefined is the result
  \<open>Inl UndefinedBehaviour\<close>; a thrown \<^verbatim>\<open>std::logic_error\<close> is \<open>Inl (LogicError _)\<close>, a
  thrown \<^verbatim>\<open>std::out_of_range\<close> is \<open>Inl OutOfRange\<close>.
\<close>

type_synonym size_t = "64 word"
type_synonym cint = "32 word"

datatype logic_error = CantFindOutputLayer | CantGuessNumClasses | NoValidImages

datatype failure = LogicError logic_error | OutOfRange | UndefinedBehaviour

subsection \<open>Anchor count and class count (main.cpp, lines 186 to 194)\<close>

text \<open>\<^verbatim>\<open>int normalized = 0;\<close>\<close>

definition normalized :: cint where
  "normalized = 0"

text \<open>\<^verbatim>\<open>int prior_size = normalized ? 4 : 5;\<close>\<close>

definition prior_size :: "cint \<Rightarrow> cint" where
  "prior_size n = (if n \<noteq> 0 then 4 else 5)"

text \<open>
  \<^verbatim>\<open>int num_priors = rois_reshapeOutDims[0] / prior_size;\<close>
  The division is unsigned 64-bit (the \<^verbatim>\<open>int\<close> operand is converted to \<^verbatim>\<open>size_t\<close>), and the
  quotient is narrowed to \<^verbatim>\<open>int\<close>.
\<close>

definition num_priors_of :: "size_t \<Rightarrow> cint" where
  "num_priors_of rois_len = ucast (rois_len div scast (prior_size normalized))"

text \<open>Signed multiplication of two \<^verbatim>\<open>int\<close>s; overflow is undefined behaviour.\<close>

definition mul_int :: "cint \<Rightarrow> cint \<Rightarrow> cint option" where
  "mul_int a b =
     (let r = sint a * sint b
      in if - (2 ^ 31) \<le> r \<and> r < 2 ^ 31 then Some (a * b) else None)"

text \<open>
  \<^verbatim>\<open>if (bbox_pred_reshapeOutDims[0] % (num_priors * 4) != 0) throw std::logic_error(...);\<close>
  \<^verbatim>\<open>int num_classes = bbox_pred_reshapeOutDims[0] / (num_priors * 4);\<close>
  The product is an \<^verbatim>\<open>int\<close>, converted to \<^verbatim>\<open>size_t\<close> for the unsigned remainder and
  quotient; a zero divisor is undefined behaviour.
\<close>

definition guess_num_classes :: "size_t \<Rightarrow> cint \<Rightarrow> failure + cint" where
  "guess_num_classes bbox_len num_priors =
     (case mul_int num_priors 4 of
        None \<Rightarrow> Inl UndefinedBehaviour
      | Some m \<Rightarrow>
          (let d = (scast m :: size_t)
           in if d = 0 then Inl UndefinedBehaviour
              else if bbox_len mod d \<noteq> 0 then Inl (LogicError CantGuessNumClasses)
              else Inr (ucast (bbox_len div d))))"

text \<open>
  Lines 159 to 180: \<^verbatim>\<open>getData\<close> yields a null pointer for a layer name the network does not
  have (\<open>None\<close>), which \<^verbatim>\<open>main\<close> answers with a \<^verbatim>\<open>std::logic_error\<close>; otherwise the layer
  has dimensions, and the length used for it is \<^verbatim>\<open>getDims()[0] * getDims()[1]\<close>.
\<close>

definition find_layer :: "size_t list option \<Rightarrow> failure + size_t list" where
  "find_layer port =
     (case port of None \<Rightarrow> Inl (LogicError CantFindOutputLayer) | Some dims \<Rightarrow> Inr dims)"

definition reshapeOutDims :: "size_t list \<Rightarrow> failure + size_t list" where
  "reshapeOutDims dims =
     (case dims of d0 # d1 # rest \<Rightarrow> Inr [d0 * d1, 1] | _ \<Rightarrow> Inl UndefinedBehaviour)"

text \<open>
  Lines 159 to 194 in their order: the three layers (\<^verbatim>\<open>bbox_name\<close>, \<^verbatim>\<open>proposal_name\<close>,
  \<^verbatim>\<open>prob_name\<close>) are looked up and flattened, then the anchor count and the class count are
  derived.  The length of the class probabilities is computed and not used.
\<close>

definition detection_shape ::
  "size_t list option \<Rightarrow> size_t list option \<Rightarrow> size_t list option \<Rightarrow> failure + cint \<times> cint" where
  "detection_shape bbox_pred rois cls_prob =
     (case find_layer bbox_pred of Inl e \<Rightarrow> Inl e | Inr bbox_dims \<Rightarrow>
      case reshapeOutDims bbox_dims of Inl e \<Rightarrow> Inl e | Inr bbox_pred_reshapeOutDims \<Rightarrow>
      case find_layer rois of Inl e \<Rightarrow> Inl e | Inr rois_dims \<Rightarrow>
      case reshapeOutDims rois_dims of Inl e \<Rightarrow> Inl e | Inr rois_reshapeOutDims \<Rightarrow>
      case find_layer cls_prob of Inl e \<Rightarrow> Inl e | Inr cls_dims \<Rightarrow>
      case reshapeOutDims cls_dims of Inl e \<Rightarrow> Inl e | Inr cls_prob_reshapeOutDims \<Rightarrow>
        (let num_priors = num_priors_of (rois_reshapeOutDims ! 0)
         in case guess_num_classes (bbox_pred_reshapeOutDims ! 0) num_priors of
              Inl e \<Rightarrow> Inl e
            | Inr num_classes \<Rightarrow> Inr (num_priors, num_classes)))"

subsection \<open>Loops and buffers\<close>

text \<open>
  A counted \<^verbatim>\<open>for\<close> loop over the indices \<open>is\<close>, threading the state and stopping at the
  first failure.
\<close>

primrec for_each :: "nat list \<Rightarrow> (nat \<Rightarrow> 's \<Rightarrow> failure + 's) \<Rightarrow> 's \<Rightarrow> failure + 's" where
  "for_each [] body s = Inr s"
| "for_each (i # is) body s =
     (case body i s of Inl e \<Rightarrow> Inl e | Inr s' \<Rightarrow> for_each is body s')"

text \<open>Reading a raw buffer through a pointer: outside the buffer it is undefined behaviour.\<close>

definition load :: "'a list \<Rightarrow> nat \<Rightarrow> failure + 'a" where
  "load buf i = (if i < length buf then Inr (buf ! i) else Inl UndefinedBehaviour)"

definition store :: "'a list \<Rightarrow> nat \<Rightarrow> 'a \<Rightarrow> failure + 'a list" where
  "store buf i v = (if i < length buf then Inr (buf[i := v]) else Inl UndefinedBehaviour)"

subsection \<open>Batch size and input blob (main.cpp, lines 317 to 348)\<close>

text \<open>
  Sizes and buffer indices are \<^verbatim>\<open>size_t\<close>; they are modelled as natural numbers, since every
  index formed here is checked against the length of a buffer that exists.

  Lines 317 to 327: no image read is an error; otherwise the batch size of the network is
  replaced by the minimum when it differs from the number of images read.
\<close>

definition clamp_batch :: "nat \<Rightarrow> nat \<Rightarrow> failure + nat" where
  "clamp_batch networkBatch nImages =
     (if nImages = 0 then Inl (LogicError NoValidImages)
      else if networkBatch \<noteq> nImages then Inr (min networkBatch nImages)
      else Inr networkBatch)"

text \<open>\<^verbatim>\<open>imagesData.at(image_id)\<close>: the checked access of \<^verbatim>\<open>std::vector\<close>.\<close>

definition vector_at :: "'a list \<Rightarrow> nat \<Rightarrow> failure + 'a" where
  "vector_at v i = (if i < length v then Inr (v ! i) else Inl OutOfRange)"

text \<open>
  Line 345, the body of the three nested loops:
  \<^verbatim>\<open>data[image_id * image_size * num_channels + ch * image_size + pid] =\<close>
  \<^verbatim>\<open>    imagesData.at(image_id).get()[pid * num_channels + ch];\<close>
\<close>

definition copy_pixel ::
  "'a list list \<Rightarrow> nat \<Rightarrow> nat \<Rightarrow> nat \<Rightarrow> nat \<Rightarrow> nat \<Rightarrow> 'a list \<Rightarrow> failure + 'a list" where
  "copy_pixel imagesData image_size num_channels image_id pid ch data =
     (case vector_at imagesData image_id of
        Inl e \<Rightarrow> Inl e
      | Inr img \<Rightarrow>
          (case load img (pid * num_channels + ch) of
             Inl e \<Rightarrow> Inl e
           | Inr v \<Rightarrow>
               store data (image_id * image_size * num_channels + ch * image_size + pid) v))"

text \<open>Lines 339 to 348: images, then pixels, then channels.\<close>

definition fill_input ::
  "'a list list \<Rightarrow> nat \<Rightarrow> nat \<Rightarrow> nat \<Rightarrow> 'a list \<Rightarrow> failure + 'a list" where
  "fill_input imagesData batchSize image_size num_channels data =
     for_each [0..<min (length imagesData) batchSize]
       (\<lambda>image_id.
          for_each [0..<image_size]
            (\<lambda>pid.
               for_each [0..<num_channels]
                 (\<lambda>ch. copy_pixel imagesData image_size num_channels image_id pid ch)))
       data"

text \<open>
  The pixel an address of the filled blob comes from: image \<open>a div (S * C)\<close>, channel
  \<open>(a mod (S * C)) div S\<close>, pixel \<open>a mod S\<close>.  It inverts the index arithmetic of line 345
  and is used to state what the loops have written.
\<close>

definition source_of :: "'a list list \<Rightarrow> nat \<Rightarrow> nat \<Rightarrow> nat \<Rightarrow> 'a" where
  "source_of imagesData S C a = imagesData ! (a div (S * C)) ! ((a mod S) * C + (a mod (S * C)) div S)"

subsection \<open>The output tensor (main.cpp, lines 207, 220, 277, 278 and 395)\<close>


text \<open>\<^verbatim>\<open>SizeVector detectionOutLayerOutDims = {7, 200, 1, 1};\<close>\<close>

definition detectionOutLayerOutDims :: "nat list" where
  "detectionOutLayerOutDims = [7, 200, 1, 1]"

text \<open>\<^verbatim>\<open>const int maxProposalCount = detectionOutLayerOutDims[1];\<close>\<close>

definition maxProposalCount :: nat where
  "maxProposalCount = detectionOutLayerOutDims ! 1"

text \<open>\<^verbatim>\<open>const int objectSize = detectionOutLayerOutDims[0];\<close>\<close>

definition objectSize :: nat where
  "objectSize = detectionOutLayerOutDims ! 0"

text \<open>
  \<^verbatim>\<open>std::make_shared<TBlob<float>>(Precision::FP32, Layout::NCHW, detectionOutLayerOutDims)\<close>
  followed by \<^verbatim>\<open>allocate()\<close>: a buffer of as many floats as the product of the dimensions.
  The dimensions are constants: the buffer does not grow with the batch.  What
  \<^verbatim>\<open>detOutPostProcessor.execute\<close> writes into it is not part of \<^verbatim>\<open>main.cpp\<close>; the consumer
  below is stated for any contents \<open>detection\<close> of a buffer of this size.
\<close>

definition blob_size :: "nat list \<Rightarrow> nat" where
  "blob_size dims = prod_list dims"


subsection \<open>The consumer of the output tensor (main.cpp, lines 403 to 434)\<close>

text \<open>
  Floats are modelled by the reals they denote (no rounding, no NaN, no infinities); the
  comparisons the loop makes are exact on them.

  A \<^verbatim>\<open>float\<close> used as a vector index is converted to \<^verbatim>\<open>size_t\<close> by truncation towards
  zero.  \<^verbatim>\<open>operator[]\<close> does no range check: a negative or too large index is undefined
  behaviour in C++.  The embedding is total: such a read yields \<open>None\<close>, and only the use of
  that value is a failure.
\<close>

definition trunc :: "real \<Rightarrow> int" where
  "trunc x = (if x < 0 then \<lceil>x\<rceil> else \<lfloor>x\<rfloor>)"

definition vec_at :: "'a list \<Rightarrow> real \<Rightarrow> 'a option" where
  "vec_at v idx =
     (let i = trunc idx
      in if 0 \<le> i \<and> nat i < length v then Some (v ! nat i) else None)"

text \<open>\<^verbatim>\<open>static_cast<int>(x)\<close> of a float: truncation; undefined when out of the range of \<^verbatim>\<open>int\<close>.\<close>

definition to_int :: "real \<Rightarrow> int option" where
  "to_int x =
     (let i = trunc x in if - (2 ^ 31) \<le> i \<and> i < 2 ^ 31 then Some i else None)"

text \<open>The seven locals of one iteration (lines 408 to 414).\<close>

record proposal =
  image_id :: real
  label :: real
  confidence :: real
  xmin :: "real option"
  ymin :: "real option"
  xmax :: "real option"
  ymax :: "real option"

text \<open>
  \<^verbatim>\<open>detection[curProposal * objectSize + k] * imageWidths[image_id]\<close>
  The product is the exact product of the two reals.  The code rounds it to a \<^verbatim>\<open>float\<close>, so
  a coordinate that is not exactly representable can differ from the one computed here, and
  after truncation by one pixel.  The statements about \<open>scaled\<close> concern only whether the
  lookup \<^verbatim>\<open>imageWidths[image_id]\<close> is defined, and the example tensor below uses
  coordinates whose products are exact in both.
\<close>

definition scaled :: "real \<Rightarrow> int list \<Rightarrow> real \<Rightarrow> real option" where
  "scaled v dims idx = map_option (\<lambda>d. v * real_of_int d) (vec_at dims idx)"

definition read_proposal ::
  "real list \<Rightarrow> int list \<Rightarrow> int list \<Rightarrow> nat \<Rightarrow> failure + proposal" where
  "read_proposal detection imageWidths imageHeights curProposal =
     (if curProposal * objectSize + 6 < length detection then
        (let id = detection ! (curProposal * objectSize + 0)
         in Inr \<lparr> image_id = id,
                  label = detection ! (curProposal * objectSize + 1),
                  confidence = detection ! (curProposal * objectSize + 2),
                  xmin = scaled (detection ! (curProposal * objectSize + 3)) imageWidths id,
                  ymin = scaled (detection ! (curProposal * objectSize + 4)) imageHeights id,
                  xmax = scaled (detection ! (curProposal * objectSize + 5)) imageWidths id,
                  ymax = scaled (detection ! (curProposal * objectSize + 6)) imageHeights id \<rparr>)
      else Inl UndefinedBehaviour)"

text \<open>What the loop leaves behind: the boxes and classes to draw per image, and the lines printed.\<close>

record printed_line =
  at_proposal :: nat
  shown :: "real list"
  will_be_printed :: bool

record draw_state =
  boxes :: "int list list"
  classes :: "int list list"
  stdout :: "printed_line list"

text \<open>\<^verbatim>\<open>v[image_id].push_back(x)\<close> on a \<^verbatim>\<open>std::vector<std::vector<int>>\<close>.\<close>

definition push_back_at :: "int list list \<Rightarrow> real \<Rightarrow> int list \<Rightarrow> int list list option" where
  "push_back_at v idx xs =
     (let i = trunc idx
      in if 0 \<le> i \<and> nat i < length v then Some (v[nat i := v ! nat i @ xs]) else None)"

text \<open>
  Lines 416 to 433: the padding check, the printed line, and the boxes kept for drawing
  (\<^verbatim>\<open>confidence > 0.5\<close>).
\<close>

definition consume_proposal :: "nat \<Rightarrow> proposal \<Rightarrow> draw_state \<Rightarrow> failure + draw_state" where
  "consume_proposal curProposal p st =
     (if image_id p < 0 \<or> confidence p = 0 then Inr st
      else
        (case (xmin p, ymin p, xmax p, ymax p) of
           (Some x0, Some y0, Some x1, Some y1) \<Rightarrow>
             (let line = \<lparr> at_proposal = curProposal,
                           shown = [label p, confidence p, x0, y0, x1, y1, image_id p],
                           will_be_printed = (confidence p > 0.5) \<rparr>
              in if confidence p > 0.5 then
                   (case (to_int (label p), to_int x0, to_int y0, to_int (x1 - x0), to_int (y1 - y0)) of
                      (Some l, Some bx, Some by, Some bw, Some bh) \<Rightarrow>
                        (case (push_back_at (classes st) (image_id p) [l],
                               push_back_at (boxes st) (image_id p) [bx, by, bw, bh]) of
                           (Some cs, Some bs) \<Rightarrow>
                             Inr \<lparr> boxes = bs, classes = cs, stdout = stdout st @ [line] \<rparr>
                         | _ \<Rightarrow> Inl UndefinedBehaviour)
                    | _ \<Rightarrow> Inl UndefinedBehaviour)
                 else Inr (st \<lparr> stdout := stdout st @ [line] \<rparr>))
         | _ \<Rightarrow> Inl UndefinedBehaviour))"




section \<open>The detection decoder\<close>

text \<open>
  \<^verbatim>\<open>main.cpp\<close> includes \<^verbatim>\<open>detectionoutput.h\<close> and calls
  \<^verbatim>\<open>DetectionOutputPostProcessor::execute\<close>, but that class is not among the sources.  The
  definitions of this section follow section 4.1 of the specification instead, steps 2 to 6
  of the operation \<^verbatim>\<open>decode\<close>.  Step 1 (decoding the boxes from offsets and anchors, which
  involves \<open>exp\<close> and a shift the specification leaves open) is not modelled: its result,
  the decoded box of every image, anchor and box set, is the input \<open>decoded\<close>.  Confidences
  and coordinates are real numbers.
\<close>

text \<open>Modelled from the spec: the decoded box \<open>(xmin, ymin, xmax, ymax)\<close> of section 3.\<close>

record box =
  box_xmin :: real
  box_ymin :: real
  box_xmax :: real
  box_ymax :: real

text \<open>
  Modelled from the spec: the candidate detection
  \<open>(anchorIndex, classLabel, confidence, decodedBox)\<close> of section 3; the confidence is the
  field \<open>score\<close>.
\<close>

record candidate =
  anchorIndex :: nat
  classLabel :: nat
  score :: real
  decodedBox :: box

text \<open>
  Modelled from the spec: the configuration of section 4.1, as far as steps 2 to 6 read it.
\<close>

record config =
  numClasses :: nat
  backgroundLabelId :: nat
  shareLocation :: bool
  confidenceThreshold :: real
  nmsThreshold :: real
  eta :: real
  topK :: nat
  keepTopK :: nat

text \<open>
  Modelled from the spec: the error \<open>ShapeMismatch\<close> of section 7, raised when an input tensor
  has not the length the configuration and the anchor count require.
\<close>

datatype decode_error = ShapeMismatch

text \<open>
  Modelled from the spec: the area of a rectangle, for the Intersection-over-Union of the
  glossary.  A rectangle whose corners are out of order has no area.
\<close>

definition area :: "box \<Rightarrow> real" where
  "area b =
     (if box_xmax b < box_xmin b \<or> box_ymax b < box_ymin b then 0
      else (box_xmax b - box_xmin b) * (box_ymax b - box_ymin b))"

text \<open>Modelled from the spec: the intersection of two rectangles, for the same ratio.\<close>

definition intersection :: "box \<Rightarrow> box \<Rightarrow> box" where
  "intersection a b =
     \<lparr> box_xmin = max (box_xmin a) (box_xmin b), box_ymin = max (box_ymin a) (box_ymin b),
       box_xmax = min (box_xmax a) (box_xmax b), box_ymax = min (box_ymax a) (box_ymax b) \<rparr>"

text \<open>
  Modelled from the spec: Intersection-over-Union, the overlap ratio of two rectangles
  (glossary).  A union of no area gives 0.
\<close>

definition iou :: "box \<Rightarrow> box \<Rightarrow> real" where
  "iou a b =
     (let i = area (intersection a b); u = area a + area b - i
      in if u \<le> 0 then 0 else i / u)"

text \<open>
  Modelled from the spec: step 2, the candidates of one class of one image.  The confidence
  tensor holds \<open>numClasses\<close> scores per anchor, image after image; a candidate is emitted
  when its score exceeds \<open>confidenceThreshold\<close>.  Its box comes from the shared box set
  (\<open>shareLocation\<close>) or from the box set of its class.
\<close>

definition candidates ::
  "config \<Rightarrow> nat \<Rightarrow> (nat \<Rightarrow> nat \<Rightarrow> nat \<Rightarrow> box) \<Rightarrow> real list \<Rightarrow> nat \<Rightarrow> nat \<Rightarrow> candidate list" where
  "candidates cfg numPriors decoded conf img c =
     map (\<lambda>i. \<lparr> anchorIndex = i, classLabel = c,
                score = conf ! ((img * numPriors + i) * numClasses cfg + c),
                decodedBox = decoded img i (if shareLocation cfg then 0 else c) \<rparr>)
       (filter (\<lambda>i. confidenceThreshold cfg < conf ! ((img * numPriors + i) * numClasses cfg + c))
          [0..<numPriors])"

text \<open>
  Modelled from the spec: the order of steps 3 and 5, confidence descending, ties broken by
  the original anchor index ascending.
\<close>

definition ranks_before :: "candidate \<Rightarrow> candidate \<Rightarrow> bool" where
  "ranks_before a b \<longleftrightarrow>
     score b < score a \<or> (score a = score b \<and> anchorIndex a \<le> anchorIndex b)"

text \<open>
  Modelled from the spec: the sort of steps 3 and 5, as a stable insertion sort.  \<open>place\<close>
  puts a candidate in front of the first one it ranks before.
\<close>

fun place :: "candidate \<Rightarrow> candidate list \<Rightarrow> candidate list" where
  "place c [] = [c]"
| "place c (d # ds) = (if ranks_before c d then c # d # ds else d # place c ds)"

text \<open>Modelled from the spec: the sort of steps 3 and 5, by repeated \<open>place\<close>.\<close>

fun rank :: "candidate list \<Rightarrow> candidate list" where
  "rank [] = []"
| "rank (c # cs) = place c (rank cs)"

text \<open>
  Modelled from the spec: step 4, greedy suppression.  The candidates come in descending
  confidence; the first is retained and suppresses every later one whose IoU against it is
  at least the threshold; the threshold is multiplied by \<open>eta\<close> from one round to the next.
\<close>

function nms :: "real \<Rightarrow> real \<Rightarrow> candidate list \<Rightarrow> candidate list" where
  "nms thr e [] = []"
| "nms thr e (c # cs) =
     c # nms (thr * e) e (filter (\<lambda>d. iou (decodedBox c) (decodedBox d) < thr) cs)"
  by pat_completeness auto
termination
  by (relation "measure (\<lambda>(thr, e, cs). length cs)") (auto simp: less_Suc_eq_le)

text \<open>Modelled from the spec: step 3 for one class, sort and cap at \<open>topK\<close>.\<close>

definition ranked_class ::
  "config \<Rightarrow> nat \<Rightarrow> (nat \<Rightarrow> nat \<Rightarrow> nat \<Rightarrow> box) \<Rightarrow> real list \<Rightarrow> nat \<Rightarrow> nat \<Rightarrow> candidate list" where
  "ranked_class cfg numPriors decoded conf img c =
     take (topK cfg) (rank (candidates cfg numPriors decoded conf img c))"

text \<open>
  Modelled from the spec: step 4 for one class, the suppression run on the ranked candidates
  with the configured \<open>nmsThreshold\<close> and \<open>eta\<close>.
\<close>

definition survivors ::
  "config \<Rightarrow> nat \<Rightarrow> (nat \<Rightarrow> nat \<Rightarrow> nat \<Rightarrow> box) \<Rightarrow> real list \<Rightarrow> nat \<Rightarrow> nat \<Rightarrow> candidate list" where
  "survivors cfg numPriors decoded conf img c =
     nms (nmsThreshold cfg) (eta cfg) (ranked_class cfg numPriors decoded conf img c)"

text \<open>Modelled from the spec: the classes of step 2, every class but the background.\<close>

definition foreground :: "config \<Rightarrow> nat list" where
  "foreground cfg = filter (\<lambda>c. c \<noteq> backgroundLabelId cfg) [0..<numClasses cfg]"

text \<open>Modelled from the spec: step 5, the survivors of all these classes pooled.\<close>

definition pooled ::
  "config \<Rightarrow> nat \<Rightarrow> (nat \<Rightarrow> nat \<Rightarrow> nat \<Rightarrow> box) \<Rightarrow> real list \<Rightarrow> nat \<Rightarrow> candidate list" where
  "pooled cfg numPriors decoded conf img =
     concat (map (survivors cfg numPriors decoded conf img) (foreground cfg))"

text \<open>Modelled from the spec: step 5, the pool sorted and capped at \<open>keepTopK\<close>.\<close>

definition kept ::
  "config \<Rightarrow> nat \<Rightarrow> (nat \<Rightarrow> nat \<Rightarrow> nat \<Rightarrow> box) \<Rightarrow> real list \<Rightarrow> nat \<Rightarrow> candidate list" where
  "kept cfg numPriors decoded conf img =
     take (keepTopK cfg) (rank (pooled cfg numPriors decoded conf img))"

text \<open>
  Modelled from the spec: step 6, the row
  \<open>[imageIndex, classLabel, confidence, xmin, ymin, xmax, ymax]\<close> of a detection.
\<close>

definition to_row :: "nat \<Rightarrow> candidate \<Rightarrow> real list" where
  "to_row img c =
     [real img, real (classLabel c), score c,
      box_xmin (decodedBox c), box_ymin (decodedBox c),
      box_xmax (decodedBox c), box_ymax (decodedBox c)]"

text \<open>
  Modelled from the spec: step 6, the padding row, \<open>imageIndex = -1\<close> and zeros elsewhere.
\<close>

definition padding_row :: "real list" where
  "padding_row = [- 1, 0, 0, 0, 0, 0, 0]"

text \<open>Modelled from the spec: the fields of a row of the output tensor (section 6).\<close>

definition row_imageIndex :: "real list \<Rightarrow> real" where
  "row_imageIndex r = r ! 0"

definition row_classLabel :: "real list \<Rightarrow> real" where
  "row_classLabel r = r ! 1"

definition row_confidence :: "real list \<Rightarrow> real" where
  "row_confidence r = r ! 2"

definition row_box :: "real list \<Rightarrow> box" where
  "row_box r = \<lparr> box_xmin = r ! 3, box_ymin = r ! 4, box_xmax = r ! 5, box_ymax = r ! 6 \<rparr>"

text \<open>
  Modelled from the spec: the detections of a batch in the order they are written, image
  after image, each image in its final sorted order.
\<close>

definition detection_rows ::
  "config \<Rightarrow> nat \<Rightarrow> nat \<Rightarrow> (nat \<Rightarrow> nat \<Rightarrow> nat \<Rightarrow> box) \<Rightarrow> real list \<Rightarrow> real list list" where
  "detection_rows cfg batchSize numPriors decoded conf =
     concat (map (\<lambda>img. map (to_row img) (kept cfg numPriors decoded conf img))
               [0..<batchSize])"

text \<open>
  Modelled from the spec: the operation \<open>decode\<close>.  A confidence tensor whose length is not
  \<open>numPriors * numClasses\<close> per image fails with \<open>ShapeMismatch\<close> before anything is
  computed.  Otherwise the output has \<open>keepTopK\<close> rows per image of the batch: the
  detections, then padding rows.
\<close>

definition decode ::
  "config \<Rightarrow> nat \<Rightarrow> nat \<Rightarrow> (nat \<Rightarrow> nat \<Rightarrow> nat \<Rightarrow> box) \<Rightarrow> real list
     \<Rightarrow> decode_error + real list list" where
  "decode cfg batchSize numPriors decoded conf =
     (if length conf \<noteq> batchSize * numPriors * numClasses cfg then Inl ShapeMismatch
      else
        (let rows = detection_rows cfg batchSize numPriors decoded conf
         in Inr (rows @ replicate (batchSize * keepTopK cfg - length rows) padding_row)))"

text \<open>
  Modelled from the spec: the configuration of the decoder with the values \<^verbatim>\<open>main.cpp\<close> sets
  (lines 202 to 213); the confidence threshold is not set there and takes the default 0 of
  the specification.
\<close>

definition demo_config :: "nat \<Rightarrow> config" where
  "demo_config num_classes =
     \<lparr> numClasses = num_classes, backgroundLabelId = 0, shareLocation = False,
       confidenceThreshold = 0, nmsThreshold = 3 / 10, eta = 1, topK = 400, keepTopK = 200 \<rparr>"

subsection \<open>Inputs of the scenarios of section 8 of the specification\<close>

text \<open>
  Modelled from the spec: the decoded boxes of scenario B, every anchor the unit square.
\<close>

definition unit_boxes :: "nat \<Rightarrow> nat \<Rightarrow> nat \<Rightarrow> box" where
  "unit_boxes img i s = \<lparr> box_xmin = 0, box_ymin = 0, box_xmax = 1, box_ymax = 1 \<rparr>"

text \<open>
  Modelled from the spec: decoded boxes that do not overlap, anchor \<open>i\<close> a unit square of
  its own.
\<close>

definition spread_boxes :: "nat \<Rightarrow> nat \<Rightarrow> nat \<Rightarrow> box" where
  "spread_boxes img i s =
     \<lparr> box_xmin = 2 * real i, box_ymin = 0, box_xmax = 2 * real i + 1, box_ymax = 1 \<rparr>"

text \<open>
  Modelled from the spec: the configuration of scenarios A and B, two classes, one of them
  the background, a confidence floor of 0.5 and an IoU cutoff of 0.3, with three output
  rows per image.
\<close>

definition scenario_config :: config where
  "scenario_config =
     \<lparr> numClasses = 2, backgroundLabelId = 0, shareLocation = True,
       confidenceThreshold = 1 / 2, nmsThreshold = 3 / 10, eta = 1, topK = 400, keepTopK = 3 \<rparr>"

section \<open>Properties of the shape derivation\<close>

lemma narrow_small:
  fixes w :: size_t
  assumes "unat w < 2 ^ 31"
  shows "sint (ucast w :: cint) = int (unat w)"
proof -
  have u: "uint w = int (unat w)" by simp
  have "int (unat w) < int (2 ^ 31)" using assms by (simp only: of_nat_less_iff)
  then have "int (unat w) < 2 ^ 31" by simp
  then have "signed_take_bit 31 (int (unat w)) = int (unat w)"
    by (intro signed_take_bit_int_eq_self) (auto intro: order_trans [of _ 0])
  then show ?thesis unfolding signed_ucast_eq u by simp
qed

lemma widen_nonneg:
  fixes m :: cint
  assumes "0 \<le> sint m"
  shows "unat (scast m :: size_t) = nat (sint m)"
proof -
  have "sint m < 2 ^ 31" using sint_lt [of m] by simp
  then have "sint m < 2 ^ 64" by (rule less_trans) simp
  then have "take_bit 64 (sint m) = sint m"
    using assms by (intro take_bit_int_eq_self) auto
  then show ?thesis unfolding scast_eq unsigned_of_int by simp
qed

lemma prior_size_normalized: "prior_size normalized = 5"
  by (simp add: prior_size_def normalized_def)

lemma num_priors_of_sint:
  assumes "unat rois_len div 5 < 2 ^ 31"
  shows "sint (num_priors_of rois_len) = int (unat rois_len div 5)"
proof -
  have five: "(scast (5 :: cint) :: size_t) = 5" by simp
  have "unat (rois_len div 5) = unat rois_len div 5" by (simp add: unat_div)
  then show ?thesis
    using assms narrow_small [of "rois_len div 5"]
    by (simp add: num_priors_of_def prior_size_normalized five)
qed

text \<open>
  The anchors length enters the shape derivation only through the quotient: a length and the
  largest multiple of 5 not above it are not told apart, whatever the other two layers.
\<close>

lemma quotient_of_multiple_below:
  fixes rois_len :: size_t
  shows "(rois_len - rois_len mod 5) div 5 = rois_len div 5"
proof -
  have m: "rois_len - rois_len mod 5 = rois_len div 5 * 5"
    by (simp add: minus_mod_eq_div_mult)
  have q: "unat (rois_len div 5) = unat rois_len div 5" by (simp add: unat_div)
  have "unat rois_len div 5 * 5 \<le> unat rois_len" by simp
  also have "\<dots> < 2 ^ 64" using unsigned_less [of rois_len, where 'a = nat] by simp
  finally have "unat (rois_len div 5) * unat (5 :: size_t) < 2 ^ LENGTH(64)"
    using q by simp
  then have "unat (rois_len div 5 * 5) = unat (rois_len div 5) * unat (5 :: size_t)"
    by (simp only: unat_mult_lem)
  then have "unat (rois_len div 5 * 5 div 5) = unat (rois_len div 5)"
    by (simp add: unat_div)
  then have "rois_len div 5 * 5 div 5 = rois_len div 5" by (simp only: word_unat_eq_iff)
  then show ?thesis unfolding m .
qed

lemma detection_shape_quotient:
  assumes "d0 * d1 = rois_len"
  shows "detection_shape bbox_pred (Some (d0 # d1 # rest)) cls_prob
     = detection_shape bbox_pred (Some [rois_len - rois_len mod 5, 1]) cls_prob"
proof -
  have "num_priors_of ((rois_len - rois_len mod 5) * 1) = num_priors_of (d0 * d1)"
    using quotient_of_multiple_below [of rois_len] assms
    by (simp add: num_priors_of_def prior_size_normalized)
  then show ?thesis
    by (simp add: detection_shape_def find_layer_def reshapeOutDims_def
        split: option.splits sum.splits)
qed

text \<open>
  C7 (as amended).  With \<open>normalized = 0\<close> an anchor takes \<open>prior_size = 5\<close> elements and the
  anchor count is the truncating quotient of the anchors tensor length by 5.  The product
  \<open>num_priors * prior_size\<close> gives the length back exactly when the length is a multiple
  of 5; in general it is the largest multiple of 5 not above the length.  No divisibility
  check is made on the anchors tensor: whatever the other two layers, the shape derivation
  gives the same result, error or counts, for anchors of this length as for anchors of the
  largest multiple of 5 not above it.
\<close>

theorem num_priors_truncating:
  assumes "unat rois_len div 5 < 2 ^ 31"
  shows "prior_size normalized = 5
    \<and> sint (num_priors_of rois_len) = int (unat rois_len div 5)
    \<and> (sint (num_priors_of rois_len) * sint (prior_size normalized) = uint rois_len
         \<longleftrightarrow> 5 dvd unat rois_len)
    \<and> sint (num_priors_of rois_len) * sint (prior_size normalized) \<le> uint rois_len
    \<and> uint rois_len < sint (num_priors_of rois_len) * sint (prior_size normalized) + 5
    \<and> (\<forall>d0 d1 rest. d0 * d1 = rois_len \<longrightarrow>
          detection_shape bbox_pred (Some (d0 # d1 # rest)) cls_prob
            = detection_shape bbox_pred (Some [rois_len - rois_len mod 5, 1]) cls_prob)"
proof -
  have p: "sint (num_priors_of rois_len) = int (unat rois_len div 5)"
    by (rule num_priors_of_sint [OF assms])
  have u: "uint rois_len = int (unat rois_len)" by simp
  have s: "sint (prior_size normalized) = 5" by (simp add: prior_size_normalized)
  have e: "(int (unat rois_len div 5) * 5 = int (unat rois_len)) \<longleftrightarrow> 5 dvd unat rois_len"
    by presburger
  have l: "int (unat rois_len div 5) * 5 \<le> int (unat rois_len)" by presburger
  have g: "int (unat rois_len) < int (unat rois_len div 5) * 5 + 5" by presburger
  have d: "\<forall>d0 d1 rest. d0 * d1 = rois_len \<longrightarrow>
          detection_shape bbox_pred (Some (d0 # d1 # rest)) cls_prob
            = detection_shape bbox_pred (Some [rois_len - rois_len mod 5, 1]) cls_prob"
    using detection_shape_quotient by blast
  show ?thesis unfolding p u s using e l g prior_size_normalized d by blast
qed


theorem num_priors_truncating_witness:
  "sint (num_priors_of 1500) = 300
    \<and> sint (num_priors_of 1500) * sint (prior_size normalized) = uint (1500 :: size_t)
    \<and> sint (num_priors_of 1503) = 300
    \<and> sint (num_priors_of 1503) * sint (prior_size normalized) \<noteq> uint (1503 :: size_t)
    \<and> detection_shape (Some [300, 84]) (Some [501, 3]) (Some [300, 21]) = Inr (300, 21)"
proof -
  have h: "unat (1500 :: size_t) div 5 < 2 ^ 31" by simp
  have h': "unat (1503 :: size_t) div 5 < 2 ^ 31" by simp
  have d: "(5::nat) dvd 1500" "\<not> (5::nat) dvd 1503" by simp_all
  have r: "(1503 :: size_t) - 1503 mod 5 = 1500" by simp
  have m: "(501 :: size_t) * 3 = 1503" by simp
  have a: "detection_shape (Some [300, 84]) (Some [1500, 1]) (Some [300, 21]) = Inr (300, 21)"
    by (simp add: detection_shape_def find_layer_def reshapeOutDims_def guess_num_classes_def
        num_priors_of_def prior_size_def normalized_def mul_int_def)
  from num_priors_truncating [OF h', of "Some [300, 84]" "Some [300, 21]"]
  have "detection_shape (Some [300, 84]) (Some [501, 3]) (Some [300, 21])
      = detection_shape (Some [300, 84]) (Some [1503 - 1503 mod 5, 1]) (Some [300, 21])"
    using m by blast
  then have b: "detection_shape (Some [300, 84]) (Some [501, 3]) (Some [300, 21]) = Inr (300, 21)"
    unfolding r a .
  from num_priors_truncating [OF h]
  have x: "sint (num_priors_of 1500) = int (unat (1500 :: size_t) div 5)"
    "(sint (num_priors_of 1500) * sint (prior_size normalized) = uint (1500 :: size_t))
       = (5 dvd unat (1500 :: size_t))"
    by blast+
  from num_priors_truncating [OF h']
  have y: "sint (num_priors_of 1503) = int (unat (1503 :: size_t) div 5)"
    "(sint (num_priors_of 1503) * sint (prior_size normalized) = uint (1503 :: size_t))
       = (5 dvd unat (1503 :: size_t))"
    by blast+
  have "sint (num_priors_of 1500) = 300" "sint (num_priors_of 1503) = 300"
    unfolding x(1) y(1) by simp_all
  moreover have "sint (num_priors_of 1500) * sint (prior_size normalized) = uint (1500 :: size_t)"
    unfolding x(2) using d(1) by simp
  moreover have "sint (num_priors_of 1503) * sint (prior_size normalized) \<noteq> uint (1503 :: size_t)"
    unfolding y(2) using d(2) by simp
  ultimately show ?thesis using b by blast
qed

theorem num_priors_not_exact_counterexample:
  "detection_shape (Some [1, 8]) (Some [1, 7]) (Some [1, 2]) = Inr (1, 2)
   \<and> sint (1 :: cint) * sint (prior_size normalized) \<noteq> uint (7 :: size_t)
   \<and> sint (num_priors_of 7) * sint (prior_size normalized) \<noteq> uint (7 :: size_t)"
  by (simp add: detection_shape_def find_layer_def reshapeOutDims_def guess_num_classes_def
      num_priors_of_def prior_size_def normalized_def mul_int_def)

lemma mul_int_times4:
  fixes p :: cint
  assumes "0 \<le> sint p" "sint p < 2 ^ 29"
  shows "mul_int p 4 = Some (p * 4)"
  using assms by (simp add: mul_int_def)

lemma sint_times4:
  fixes p :: cint
  assumes "0 \<le> sint p" "sint p < 2 ^ 29"
  shows "sint (p * 4) = sint p * 4"
proof -
  have r: "- (2 ^ 31) \<le> sint p * 4" "sint p * 4 < 2 ^ 31" using assms by simp_all
  have "sint (p * 4) = signed_take_bit 31 (sint p * 4)"
    by (simp add: sint_word_mult)
  also have "\<dots> = sint p * 4" using r by (intro signed_take_bit_int_eq_self)
  finally show ?thesis .
qed

lemma divisor_unat:
  fixes p :: cint
  assumes "0 \<le> sint p" "sint p < 2 ^ 29"
  shows "unat (scast (p * 4) :: size_t) = nat (sint p) * 4"
proof -
  have "0 \<le> sint (p * 4)" using assms by (simp add: sint_times4)
  then show ?thesis
    using widen_nonneg [of "p * 4"] assms by (simp add: sint_times4 nat_mult_distrib)
qed

text \<open>
  With at least one anchor (and no overflow of \<open>num_priors * 4\<close>) the check of line 191
  throws exactly on the lengths that are no multiple of \<open>num_priors * 4\<close>, and otherwise the
  guessed class count satisfies \<open>bbox_len = num_priors * 4 * num_classes\<close>.
\<close>

lemma guess_num_classes_rejects:
  fixes p :: cint
  assumes "0 < sint p" "sint p < 2 ^ 29"
    and "\<not> (nat (sint p) * 4) dvd unat bbox_len"
  shows "guess_num_classes bbox_len p = Inl (LogicError CantGuessNumClasses)"
proof -
  let ?d = "scast (p * 4) :: size_t"
  have du: "unat ?d = nat (sint p) * 4" using assms by (intro divisor_unat) simp_all
  have "unat ?d \<noteq> 0" unfolding du using assms(1) by simp
  then have d0: "?d \<noteq> 0" by (metis unat_0)
  have "unat (bbox_len mod ?d) = unat bbox_len mod (nat (sint p) * 4)"
    by (simp only: unat_mod du)
  then have "unat (bbox_len mod ?d) \<noteq> 0" using assms(3)
    by (simp add: dvd_eq_mod_eq_0)
  then have "bbox_len mod ?d \<noteq> 0" by (metis unat_0)
  then show ?thesis using d0 assms mul_int_times4 [of p]
    by (simp add: guess_num_classes_def Let_def)
qed

lemma guess_num_classes_accepts:
  fixes p :: cint
  assumes "0 < sint p" "sint p < 2 ^ 29"
    and "unat bbox_len = nat (sint p) * 4 * c" "c < 2 ^ 31"
  shows "\<exists>k. guess_num_classes bbox_len p = Inr k \<and> sint k = int c"
proof -
  let ?d = "scast (p * 4) :: size_t"
  have du: "unat ?d = nat (sint p) * 4" using assms by (intro divisor_unat) simp_all
  have "unat ?d \<noteq> 0" unfolding du using assms(1) by simp
  then have d0: "?d \<noteq> 0" by (metis unat_0)
  have "unat (bbox_len mod ?d) = unat bbox_len mod (nat (sint p) * 4)"
    by (simp only: unat_mod du)
  then have "unat (bbox_len mod ?d) = 0" using assms(3) by simp
  then have m0: "bbox_len mod ?d = 0" by (metis unat_eq_zero)
  have "unat (bbox_len div ?d) = unat bbox_len div (nat (sint p) * 4)"
    by (simp only: unat_div du)
  also have "\<dots> = c" using assms(1,3) by simp
  finally have q: "unat (bbox_len div ?d) = c" .
  have "sint (ucast (bbox_len div ?d) :: cint) = int c"
    using narrow_small [of "bbox_len div ?d"] assms(4) q by simp
  then show ?thesis using d0 m0 assms mul_int_times4 [of p]
    by (simp add: guess_num_classes_def Let_def)
qed

text \<open>
  C6.  An anchors tensor of 4 elements gives \<open>num_priors = 0\<close>; a localization tensor of 8
  elements then violates \<open>8 = 0 * 4 * num_classes\<close> for every class count, yet line 191
  computes \<open>8 % 0\<close>: the run is undefined behaviour, not the \<^verbatim>\<open>std::logic_error\<close> of the
  shape check.
\<close>

theorem guess_num_classes_zero_priors:
  "num_priors_of 4 = 0 \<and> guess_num_classes 8 (num_priors_of 4) = Inl UndefinedBehaviour
   \<and> detection_shape (Some [1, 8]) (Some [1, 4]) (Some [1, 2]) = Inl UndefinedBehaviour"
  by (simp add: detection_shape_def find_layer_def reshapeOutDims_def guess_num_classes_def
      num_priors_of_def prior_size_def normalized_def mul_int_def)

text \<open>
  The shape the demo is written for: 300 proposals of 5 values and 21 classes give
  \<open>num_priors = 300\<close> and \<open>num_classes = 21\<close>; a box tensor that is no multiple of 1200 is
  refused.
\<close>

lemma detection_shape_faster_rcnn:
  "detection_shape (Some [300, 84]) (Some [300, 5]) (Some [300, 21]) = Inr (300, 21)"
  "detection_shape (Some [300, 85]) (Some [300, 5]) (Some [300, 21])
     = Inl (LogicError CantGuessNumClasses)"
  "detection_shape (Some [300, 84]) None (Some [300, 21]) = Inl (LogicError CantFindOutputLayer)"
  by (simp_all add: detection_shape_def find_layer_def reshapeOutDims_def guess_num_classes_def
      num_priors_of_def prior_size_def normalized_def mul_int_def)

section \<open>Properties of the output tensor and its consumer\<close>

lemma maxProposalCount_eq: "maxProposalCount = 200"
  by (simp add: maxProposalCount_def detectionOutLayerOutDims_def)

lemma objectSize_eq: "objectSize = 7"
  by (simp add: objectSize_def detectionOutLayerOutDims_def)

lemma blob_size_out: "blob_size detectionOutLayerOutDims = 1400"
  by (simp add: blob_size_def detectionOutLayerOutDims_def)

lemma row_in_blob:
  assumes "curProposal < maxProposalCount" "length detection = blob_size detectionOutLayerOutDims"
  shows "curProposal * objectSize + 6 < length detection"
  using assms by (simp add: maxProposalCount_eq objectSize_eq blob_size_out)

lemma vec_at_negative: "idx \<le> - 1 \<Longrightarrow> vec_at v idx = None"
proof -
  assume a: "idx \<le> - 1"
  then have "\<lceil>idx\<rceil> \<le> - 1" by (simp add: ceiling_le_iff)
  then have "trunc idx < 0" using a by (simp add: trunc_def)
  then show ?thesis by (simp add: vec_at_def Let_def)
qed

lemma scaled_negative: "idx \<le> - 1 \<Longrightarrow> scaled x v idx = None"
  by (simp add: scaled_def vec_at_negative)



lemma for_each_append:
  "for_each (xs @ ys) body s =
     (case for_each xs body s of Inl e \<Rightarrow> Inl e | Inr s' \<Rightarrow> for_each ys body s')"
  by (induction xs arbitrary: s) (auto split: sum.splits)

lemma for_each_upt_Suc:
  "for_each [0..<Suc n] body s =
     (case for_each [0..<n] body s of Inl e \<Rightarrow> Inl e | Inr s' \<Rightarrow> body n s')"
  by (simp add: for_each_append split: sum.splits)





















text \<open>
  C8.  Each iteration evaluates the four lookups \<open>imageWidths[image_id]\<close> and
  \<open>imageHeights[image_id]\<close> while reading the row, before \<open>image_id < 0\<close> is tested.  On a
  padding row (\<open>image_id = -1\<close>) the index is negative, the lookups yield \<open>None\<close>, and only
  afterwards is the row skipped: the sentinel check does not guard them.
\<close>

theorem lookups_before_padding_check:
  assumes "curProposal < maxProposalCount"
    and "length detection = blob_size detectionOutLayerOutDims"
  shows "\<exists>p. read_proposal detection imageWidths imageHeights curProposal = Inr p
    \<and> image_id p = detection ! (curProposal * objectSize)
    \<and> xmin p = scaled (detection ! (curProposal * objectSize + 3)) imageWidths (image_id p)
    \<and> ymin p = scaled (detection ! (curProposal * objectSize + 4)) imageHeights (image_id p)
    \<and> xmax p = scaled (detection ! (curProposal * objectSize + 5)) imageWidths (image_id p)
    \<and> ymax p = scaled (detection ! (curProposal * objectSize + 6)) imageHeights (image_id p)
    \<and> (image_id p = - 1 \<longrightarrow>
          vec_at imageWidths (image_id p) = None \<and> vec_at imageHeights (image_id p) = None
        \<and> xmin p = None \<and> ymin p = None \<and> xmax p = None \<and> ymax p = None
        \<and> consume_proposal curProposal p st = Inr st)"
  using row_in_blob [OF assms]
  by (simp add: read_proposal_def Let_def scaled_negative vec_at_negative consume_proposal_def)

theorem lookups_before_padding_check_witness:
  "\<exists>p. read_proposal (replicate 1400 (- 1)) [640] [480] 0 = Inr p
     \<and> image_id p = - 1
     \<and> vec_at [640 :: int] (image_id p) = None \<and> vec_at [480 :: int] (image_id p) = None
     \<and> xmin p = None \<and> ymin p = None \<and> xmax p = None \<and> ymax p = None
     \<and> consume_proposal 0 p \<lparr> boxes = [[]], classes = [[]], stdout = [] \<rparr>
         = Inr \<lparr> boxes = [[]], classes = [[]], stdout = [] \<rparr>"
proof -
  have h: "length (replicate 1400 (- 1 :: real)) = blob_size detectionOutLayerOutDims"
    by (simp add: blob_size_out)
  have m: "0 < maxProposalCount" by (simp add: maxProposalCount_eq)
  from lookups_before_padding_check
    [OF m h, of "[640]" "[480]" "\<lparr> boxes = [[]], classes = [[]], stdout = [] \<rparr>"]
  obtain p where p: "read_proposal (replicate 1400 (- 1)) [640] [480] 0 = Inr p"
    "image_id p = replicate 1400 (- 1) ! (0 * objectSize)"
    "image_id p = - 1 \<longrightarrow>
          vec_at [640 :: int] (image_id p) = None \<and> vec_at [480 :: int] (image_id p) = None
        \<and> xmin p = None \<and> ymin p = None \<and> xmax p = None \<and> ymax p = None
        \<and> consume_proposal 0 p \<lparr> boxes = [[]], classes = [[]], stdout = [] \<rparr>
         = Inr \<lparr> boxes = [[]], classes = [[]], stdout = [] \<rparr>"
    by blast
  have "image_id p = - 1" using p(2) by simp
  then show ?thesis using p by blast
qed

text \<open>
  C9.  An iteration leaves the state untouched (the \<^verbatim>\<open>continue\<close> of line 418) exactly when
  \<open>image_id < 0\<close> or \<open>confidence = 0\<close>; every other row prints a line or fails.  In particular
  a row with image index 0 and confidence 0 is skipped although its index is no sentinel.
\<close>

theorem consumer_skips_iff:
  "(consume_proposal curProposal p st = Inr st) = (image_id p < 0 \<or> confidence p = 0)
   \<and> consume_proposal curProposal (p\<lparr>image_id := 0, confidence := 0\<rparr>) st = Inr st"
  by (cases st) (auto simp: consume_proposal_def Let_def split: option.splits)

theorem consumer_skips_iff_witness:
  "consume_proposal 3 \<lparr> image_id = 0, label = 1, confidence = 0, xmin = Some 0, ymin = Some 0,
       xmax = Some 0, ymax = Some 0 \<rparr> \<lparr> boxes = [[]], classes = [[]], stdout = [] \<rparr>
     = Inr \<lparr> boxes = [[]], classes = [[]], stdout = [] \<rparr>
   \<and> consume_proposal 3 \<lparr> image_id = 0, label = 1, confidence = 1 / 4, xmin = Some 0, ymin = Some 0,
       xmax = Some 0, ymax = Some 0 \<rparr> \<lparr> boxes = [[]], classes = [[]], stdout = [] \<rparr>
     \<noteq> Inr \<lparr> boxes = [[]], classes = [[]], stdout = [] \<rparr>"
  using consumer_skips_iff [of 3 "\<lparr> image_id = 0, label = 1, confidence = 0, xmin = Some 0,
       ymin = Some 0, xmax = Some 0, ymax = Some 0 \<rparr>"
       "\<lparr> boxes = [[]], classes = [[]], stdout = [] \<rparr>"]
    consumer_skips_iff [of 3 "\<lparr> image_id = 0, label = 1, confidence = 1 / 4, xmin = Some 0,
       ymin = Some 0, xmax = Some 0, ymax = Some 0 \<rparr>"
       "\<lparr> boxes = [[]], classes = [[]], stdout = [] \<rparr>"]
  by simp

section \<open>Properties of the batch clamp and the input blob\<close>


lemma for_each_writes_aux:
  assumes step: "\<And>j d. j < n \<Longrightarrow> length d = L \<Longrightarrow>
      \<exists>d'. body j d = Inr d' \<and> length d' = L \<and> (\<forall>a\<in>T j. d' ! a = V a)
        \<and> (\<forall>a. a \<notin> T j \<longrightarrow> d' ! a = d ! a)"
    and disj: "\<And>i j. i < j \<Longrightarrow> j < n \<Longrightarrow> T i \<inter> T j = {}"
    and len: "length d = L"
  shows "m \<le> n \<Longrightarrow> \<exists>d'. for_each [0..<m] body d = Inr d' \<and> length d' = L
      \<and> (\<forall>j<m. \<forall>a\<in>T j. d' ! a = V a)
      \<and> (\<forall>a. (\<forall>j<m. a \<notin> T j) \<longrightarrow> d' ! a = d ! a)"
proof (induction m)
  case 0
  then show ?case using len by simp
next
  case (Suc m)
  then obtain d1 where d1: "for_each [0..<m] body d = Inr d1" "length d1 = L"
    "\<forall>j<m. \<forall>a\<in>T j. d1 ! a = V a" "\<forall>a. (\<forall>j<m. a \<notin> T j) \<longrightarrow> d1 ! a = d ! a"
    by auto
  have mn: "m < n" using Suc.prems by simp
  from step [OF mn d1(2)] obtain d2 where d2: "body m d1 = Inr d2" "length d2 = L"
    "\<forall>a\<in>T m. d2 ! a = V a" "\<forall>a. a \<notin> T m \<longrightarrow> d2 ! a = d1 ! a"
    by auto
  have run: "for_each [0..<Suc m] body d = Inr d2"
    using d1(1) d2(1) by (simp only: for_each_upt_Suc sum.case)
  have old: "\<forall>j<Suc m. \<forall>a\<in>T j. d2 ! a = V a"
  proof (intro allI impI ballI)
    fix j a assume j: "j < Suc m" and a: "a \<in> T j"
    show "d2 ! a = V a"
    proof (cases "j = m")
      case True
      then show ?thesis using d2(3) a by simp
    next
      case False
      then have jm: "j < m" using j by simp
      then have "T j \<inter> T m = {}" using disj mn by simp
      then have "a \<notin> T m" using a by auto
      then show ?thesis using d2(4) d1(3) jm a by simp
    qed
  qed
  have frame: "\<forall>a. (\<forall>j<Suc m. a \<notin> T j) \<longrightarrow> d2 ! a = d ! a"
    using d2(4) d1(4) by (simp add: less_Suc_eq)
  show ?case using run d2(2) old frame by blast
qed

lemmas for_each_writes = for_each_writes_aux [OF _ _ _ order_refl]


lemma offset_less:
  fixes S C c p :: nat
  assumes "p < S" "c < C"
  shows "c * S + p < S * C"
proof -
  have "c * S + p < c * S + S" using assms(1) by simp
  also have "\<dots> = Suc c * S" by simp
  also have "\<dots> \<le> C * S" using assms(2) by (intro mult_le_mono1) simp
  finally show ?thesis by (simp add: mult.commute)
qed

lemma addr_split:
  fixes S C i c p :: nat
  shows "i * S * C + c * S + p = i * (S * C) + (c * S + p)"
  by (simp add: mult.assoc)

lemma addr_div:
  fixes S C i c p :: nat
  assumes "p < S" "c < C"
  shows "(i * S * C + c * S + p) div (S * C) = i"
proof -
  have r: "c * S + p < S * C" by (rule offset_less [OF assms])
  have "0 < S" "0 < C" using assms by auto
  then have "S * C \<noteq> 0" by simp
  then have "(i * (S * C) + (c * S + p)) div (S * C) = i + (c * S + p) div (S * C)"
    by (rule div_mult_self3)
  then show ?thesis unfolding addr_split using r by simp
qed

lemma addr_mod:
  fixes S C i c p :: nat
  assumes "p < S" "c < C"
  shows "(i * S * C + c * S + p) mod (S * C) = c * S + p"
proof -
  have r: "c * S + p < S * C" by (rule offset_less [OF assms])
  have "(i * (S * C) + (c * S + p)) mod (S * C) = (c * S + p) mod (S * C)"
    by (rule mod_mult_self3)
  then show ?thesis unfolding addr_split using r by simp
qed

lemma addr_pid:
  fixes S C i c p :: nat
  assumes "p < S"
  shows "(i * S * C + c * S + p) mod S = p"
proof -
  have "i * S * C + c * S + p = (i * C + c) * S + p" by (simp add: algebra_simps)
  then show ?thesis using assms by simp
qed

lemma addr_ch:
  fixes S C i c p :: nat
  assumes "p < S" "c < C"
  shows "((i * S * C + c * S + p) mod (S * C)) div S = c"
  unfolding addr_mod [OF assms] using assms(1) by simp

lemma addr_upper:
  fixes S C i c p :: nat
  assumes "p < S" "c < C"
  shows "i * S * C + c * S + p < Suc i * S * C"
proof -
  have "i * (S * C) + (c * S + p) < i * (S * C) + S * C"
    using offset_less [OF assms] by simp
  then show ?thesis unfolding addr_split by (simp add: algebra_simps)
qed

lemma src_less:
  fixes S C c p :: nat
  assumes "p < S" "c < C"
  shows "p * C + c < S * C"
  using offset_less [OF assms(2) assms(1)] by (simp add: mult.commute)


lemma source_of_addr:
  assumes "p < S" "c < C"
  shows "source_of imagesData S C (i * S * C + c * S + p) = imagesData ! i ! (p * C + c)"
  by (simp only: source_of_def addr_div [OF assms] addr_pid [OF assms(1)] addr_ch [OF assms])

lemma copy_pixel_step:
  assumes "i < length imagesData" "length (imagesData ! i) = S * C" "p < S" "c < C"
    and "Suc i * S * C \<le> length d"
  shows "\<exists>d'. copy_pixel imagesData S C i p c d = Inr d' \<and> length d' = length d
    \<and> (\<forall>a\<in>{i * S * C + c * S + p}. d' ! a = source_of imagesData S C a)
    \<and> (\<forall>a. a \<notin> {i * S * C + c * S + p} \<longrightarrow> d' ! a = d ! a)"
proof -
  have a: "i * S * C + c * S + p < length d"
    using addr_upper [OF assms(3,4), of i] assms(5) by simp
  have s: "p * C + c < length (imagesData ! i)"
    using src_less [OF assms(3,4)] assms(2) by simp
  show ?thesis using a s assms(1)
    by (simp add: copy_pixel_def vector_at_def load_def store_def source_of_addr [OF assms(3,4)])
qed

lemma copy_channels:
  assumes "i < length imagesData" "length (imagesData ! i) = S * C" "p < S"
    and "Suc i * S * C \<le> length d"
  shows "\<exists>d'. for_each [0..<C] (copy_pixel imagesData S C i p) d = Inr d' \<and> length d' = length d
    \<and> (\<forall>a\<in>{i * S * C + c * S + p |c. c < C}. d' ! a = source_of imagesData S C a)
    \<and> (\<forall>a. a \<notin> {i * S * C + c * S + p |c. c < C} \<longrightarrow> d' ! a = d ! a)"
proof -
  have "\<exists>d'. for_each [0..<C] (copy_pixel imagesData S C i p) d = Inr d' \<and> length d' = length d
      \<and> (\<forall>j<C. \<forall>a\<in>{i * S * C + j * S + p}. d' ! a = source_of imagesData S C a)
      \<and> (\<forall>a. (\<forall>j<C. a \<notin> {i * S * C + j * S + p}) \<longrightarrow> d' ! a = d ! a)"
  proof (rule for_each_writes)
    fix j and e :: "'a list" assume "j < C" "length e = length d"
    then show "\<exists>d'. copy_pixel imagesData S C i p j e = Inr d' \<and> length d' = length d
        \<and> (\<forall>a\<in>{i * S * C + j * S + p}. d' ! a = source_of imagesData S C a)
        \<and> (\<forall>a. a \<notin> {i * S * C + j * S + p} \<longrightarrow> d' ! a = e ! a)"
      using copy_pixel_step [OF assms(1,2,3), of j e] assms(4) by simp
  next
    fix j k :: nat assume "j < k" "k < C"
    then show "{i * S * C + j * S + p} \<inter> {i * S * C + k * S + p} = {}"
      using assms(3) by auto
  qed simp
  then show ?thesis by (auto; blast)
qed


lemma copy_pixels:
  assumes "i < length imagesData" "length (imagesData ! i) = S * C"
    and "Suc i * S * C \<le> length d"
  shows "\<exists>d'. for_each [0..<S] (\<lambda>pid. for_each [0..<C] (copy_pixel imagesData S C i pid)) d = Inr d'
    \<and> length d' = length d
    \<and> (\<forall>a\<in>{i * S * C + c * S + p |c p. c < C \<and> p < S}. d' ! a = source_of imagesData S C a)
    \<and> (\<forall>a. a \<notin> {i * S * C + c * S + p |c p. c < C \<and> p < S} \<longrightarrow> d' ! a = d ! a)"
proof -
  have "\<exists>d'. for_each [0..<S] (\<lambda>pid. for_each [0..<C] (copy_pixel imagesData S C i pid)) d = Inr d'
      \<and> length d' = length d
      \<and> (\<forall>j<S. \<forall>a\<in>{i * S * C + c * S + j |c. c < C}. d' ! a = source_of imagesData S C a)
      \<and> (\<forall>a. (\<forall>j<S. a \<notin> {i * S * C + c * S + j |c. c < C}) \<longrightarrow> d' ! a = d ! a)"
  proof (rule for_each_writes)
    fix j and e :: "'a list" assume "j < S" "length e = length d"
    then show "\<exists>d'. for_each [0..<C] (copy_pixel imagesData S C i j) e = Inr d' \<and> length d' = length d
        \<and> (\<forall>a\<in>{i * S * C + c * S + j |c. c < C}. d' ! a = source_of imagesData S C a)
        \<and> (\<forall>a. a \<notin> {i * S * C + c * S + j |c. c < C} \<longrightarrow> d' ! a = e ! a)"
      using copy_channels [OF assms(1,2), of j e] assms(3) by simp
  next
    fix j k :: nat assume jk: "j < k" "k < S"
    show "{i * S * C + c * S + j |c. c < C} \<inter> {i * S * C + c * S + k |c. c < C} = {}"
    proof (rule ccontr)
      assume "{i * S * C + c * S + j |c. c < C} \<inter> {i * S * C + c * S + k |c. c < C} \<noteq> {}"
      then obtain c c' where "i * S * C + c * S + j = i * S * C + c' * S + k" by auto
      then have "(i * S * C + c * S + j) mod S = (i * S * C + c' * S + k) mod S"
        by (rule arg_cong)
      then have "j = k" using jk by (simp only: addr_pid [of j S] addr_pid [of k S] less_trans [OF jk])
      then show False using jk by simp
    qed
  qed simp
  then obtain d' where d': "for_each [0..<S] (\<lambda>pid. for_each [0..<C] (copy_pixel imagesData S C i pid)) d = Inr d'"
      "length d' = length d"
      "\<forall>j<S. \<forall>a\<in>{i * S * C + c * S + j |c. c < C}. d' ! a = source_of imagesData S C a"
      "\<forall>a. (\<forall>j<S. a \<notin> {i * S * C + c * S + j |c. c < C}) \<longrightarrow> d' ! a = d ! a"
    by blast
  have w: "\<forall>a\<in>{i * S * C + c * S + p |c p. c < C \<and> p < S}. d' ! a = source_of imagesData S C a"
    using d'(3) by blast
  have f: "\<forall>a. a \<notin> {i * S * C + c * S + p |c p. c < C \<and> p < S} \<longrightarrow> d' ! a = d ! a"
  proof (intro allI impI)
    fix a assume "a \<notin> {i * S * C + c * S + p |c p. c < C \<and> p < S}"
    then have "\<forall>j<S. a \<notin> {i * S * C + c * S + j |c. c < C}" by blast
    then show "d' ! a = d ! a" using d'(4) by blast
  qed
  show ?thesis using d'(1,2) w f by blast
qed

lemma copy_images:
  assumes "n \<le> length imagesData" "\<forall>i<n. length (imagesData ! i) = S * C"
    and "n * S * C \<le> length d"
  shows "\<exists>d'. for_each [0..<n]
        (\<lambda>image_id. for_each [0..<S] (\<lambda>pid. for_each [0..<C] (copy_pixel imagesData S C image_id pid))) d
      = Inr d'
    \<and> length d' = length d
    \<and> (\<forall>i<n. \<forall>a\<in>{i * S * C + c * S + p |c p. c < C \<and> p < S}. d' ! a = source_of imagesData S C a)
    \<and> (\<forall>a. (\<forall>i<n. a \<notin> {i * S * C + c * S + p |c p. c < C \<and> p < S}) \<longrightarrow> d' ! a = d ! a)"
proof (rule for_each_writes)
  fix j and e :: "'a list" assume j: "j < n" "length e = length d"
  then have "Suc j \<le> n" by simp
  then have "Suc j * S * C \<le> n * S * C" by (intro mult_le_mono1)
  then have "Suc j * S * C \<le> length e" using assms(3) j(2) by (simp only: order_trans)
  then show "\<exists>d'. for_each [0..<S] (\<lambda>pid. for_each [0..<C] (copy_pixel imagesData S C j pid)) e = Inr d'
      \<and> length d' = length d
      \<and> (\<forall>a\<in>{j * S * C + c * S + p |c p. c < C \<and> p < S}. d' ! a = source_of imagesData S C a)
      \<and> (\<forall>a. a \<notin> {j * S * C + c * S + p |c p. c < C \<and> p < S} \<longrightarrow> d' ! a = e ! a)"
    using copy_pixels [of j imagesData S C e] assms(1,2) j by simp
next
  fix j k :: nat assume jk: "j < k" "k < n"
  show "{j * S * C + c * S + p |c p. c < C \<and> p < S} \<inter> {k * S * C + c * S + p |c p. c < C \<and> p < S} = {}"
  proof (rule ccontr)
    assume "{j * S * C + c * S + p |c p. c < C \<and> p < S} \<inter> {k * S * C + c * S + p |c p. c < C \<and> p < S} \<noteq> {}"
    then obtain c p c' p' where e: "j * S * C + c * S + p = k * S * C + c' * S + p'"
      and b: "c < C" "p < S" "c' < C" "p' < S" by auto
    from e have "(j * S * C + c * S + p) div (S * C) = (k * S * C + c' * S + p') div (S * C)"
      by (rule arg_cong)
    then have "j = k" by (simp only: addr_div [OF b(2,1)] addr_div [OF b(4,3)])
    then show False using jk by simp
  qed
qed simp


text \<open>
  C10.  With at least one image read, the batch size becomes
  \<open>min (number of images) (batch size of the network)\<close>, whether or not the two differ.  The
  loops then copy exactly that many images into the input blob, each to its planar place,
  and leave every byte behind them as it was.
\<close>

theorem batch_clamped_and_filled:
  assumes "imagesData \<noteq> []"
    and "\<forall>i<length imagesData. length (imagesData ! i) = image_size * num_channels"
    and "length data = networkBatch * image_size * num_channels"
  shows "\<exists>batchSize data'.
      clamp_batch networkBatch (length imagesData) = Inr batchSize
    \<and> batchSize = min (length imagesData) networkBatch
    \<and> fill_input imagesData batchSize image_size num_channels data = Inr data'
    \<and> length data' = length data
    \<and> (\<forall>i<batchSize. \<forall>p<image_size. \<forall>c<num_channels.
          data' ! (i * image_size * num_channels + c * image_size + p)
            = imagesData ! i ! (p * num_channels + c))
    \<and> (\<forall>a\<ge>batchSize * image_size * num_channels. data' ! a = data ! a)"
proof -
  let ?n = "min (length imagesData) networkBatch"
  let ?S = image_size and ?C = num_channels
  have clamp: "clamp_batch networkBatch (length imagesData) = Inr ?n"
    using assms(1) by (auto simp: clamp_batch_def min_def)
  have n1: "?n \<le> length imagesData" by simp
  have n2: "\<forall>i<?n. length (imagesData ! i) = ?S * ?C" using assms(2) by simp
  have "?n * ?S * ?C \<le> networkBatch * ?S * ?C" by (intro mult_le_mono1) simp
  then have n3: "?n * ?S * ?C \<le> length data" using assms(3) by simp
  from copy_images [OF n1 n2 n3] obtain d' where d':
    "for_each [0..<?n]
        (\<lambda>image_id. for_each [0..<?S] (\<lambda>pid. for_each [0..<?C] (copy_pixel imagesData ?S ?C image_id pid))) data
      = Inr d'"
    "length d' = length data"
    "\<forall>i<?n. \<forall>a\<in>{i * ?S * ?C + c * ?S + p |c p. c < ?C \<and> p < ?S}. d' ! a = source_of imagesData ?S ?C a"
    "\<forall>a. (\<forall>i<?n. a \<notin> {i * ?S * ?C + c * ?S + p |c p. c < ?C \<and> p < ?S}) \<longrightarrow> d' ! a = data ! a"
    by blast
  have fill: "fill_input imagesData ?n ?S ?C data = Inr d'"
    using d'(1) by (simp add: fill_input_def)
  have written: "\<forall>i<?n. \<forall>p<?S. \<forall>c<?C.
      d' ! (i * ?S * ?C + c * ?S + p) = imagesData ! i ! (p * ?C + c)"
  proof (intro allI impI)
    fix i p c assume b: "i < ?n" "p < ?S" "c < ?C"
    then have "i * ?S * ?C + c * ?S + p \<in> {i * ?S * ?C + c * ?S + p |c p. c < ?C \<and> p < ?S}"
      by blast
    then have "d' ! (i * ?S * ?C + c * ?S + p) = source_of imagesData ?S ?C (i * ?S * ?C + c * ?S + p)"
      using d'(3) b(1) by blast
    then show "d' ! (i * ?S * ?C + c * ?S + p) = imagesData ! i ! (p * ?C + c)"
      by (simp only: source_of_addr [OF b(2,3)])
  qed
  have untouched: "\<forall>a\<ge>?n * ?S * ?C. d' ! a = data ! a"
  proof (intro allI impI)
    fix a assume a: "?n * ?S * ?C \<le> a"
    have "\<forall>i<?n. a \<notin> {i * ?S * ?C + c * ?S + p |c p. c < ?C \<and> p < ?S}"
    proof (intro allI impI notI)
      fix i assume i: "i < ?n" and "a \<in> {i * ?S * ?C + c * ?S + p |c p. c < ?C \<and> p < ?S}"
      then obtain c p where e: "a = i * ?S * ?C + c * ?S + p" and b: "c < ?C" "p < ?S" by blast
      have "a < Suc i * ?S * ?C" unfolding e by (rule addr_upper [OF b(2,1)])
      moreover have "Suc i \<le> ?n" using i by simp
      then have "Suc i * ?S * ?C \<le> ?n * ?S * ?C" by (intro mult_le_mono1)
      ultimately show False using a by linarith
    qed
    then show "d' ! a = data ! a" using d'(4) by blast
  qed
  show ?thesis using clamp fill d'(2) written untouched by blast
qed

theorem batch_clamped_and_filled_witness:
  "clamp_batch 2 (length [[10, 11, 12, 13 :: nat]]) = Inr 1
    \<and> (\<exists>data'. fill_input [[10, 11, 12, 13 :: nat]] 1 2 2 (replicate 8 0) = Inr data'
          \<and> length data' = 8 \<and> data' ! 1 = 12 \<and> data' ! 2 = 11 \<and> data' ! 4 = 0)"
proof -
  have h1: "[[10, 11, 12, 13 :: nat]] \<noteq> []" by simp
  have h2: "\<forall>i<length [[10, 11, 12, 13 :: nat]]. length ([[10, 11, 12, 13]] ! i) = 2 * 2" by simp
  have h3: "length (replicate 8 (0 :: nat)) = 2 * 2 * 2" by simp
  from batch_clamped_and_filled [OF h1 h2 h3]
  obtain batchSize data' where r:
    "clamp_batch 2 (length [[10, 11, 12, 13 :: nat]]) = Inr batchSize"
    "batchSize = min (length [[10, 11, 12, 13 :: nat]]) 2"
    "fill_input [[10, 11, 12, 13 :: nat]] batchSize 2 2 (replicate 8 0) = Inr data'"
    "length data' = length (replicate 8 (0 :: nat))"
    "\<forall>i<batchSize. \<forall>p<2. \<forall>c<2.
          data' ! (i * 2 * 2 + c * 2 + p) = [[10, 11, 12, 13 :: nat]] ! i ! (p * 2 + c)"
    "\<forall>a\<ge>batchSize * 2 * 2. data' ! a = replicate 8 (0 :: nat) ! a"
    by blast
  have b: "batchSize = 1" using r(2) by simp
  have v1: "data' ! 1 = 12" using r(5) [rule_format, of 0 1 0] b by simp
  have v2: "data' ! 2 = 11" using r(5) [rule_format, of 0 0 1] b by (simp add: numeral_2_eq_2)
  have "data' ! 4 = replicate 8 (0 :: nat) ! 4" using r(6) b by simp
  then have v4: "data' ! 4 = 0" by simp
  show ?thesis using r(1,3,4) b v1 v2 v4 by auto
qed

lemma fill_example:
  "fill_input [[10, 11, 12, 13 :: nat]] 1 2 2 (replicate 8 0) = Inr [10, 12, 11, 13, 0, 0, 0, 0]"
  by (simp add: fill_input_def copy_pixel_def vector_at_def load_def store_def upt_rec numeral_eq_Suc)

section \<open>Properties of the decoder\<close>


subsection \<open>Ranking\<close>

lemma ranks_before_total: "ranks_before a b \<or> ranks_before b a"
  by (auto simp: ranks_before_def)

lemma ranks_before_trans: "ranks_before a b \<Longrightarrow> ranks_before b c \<Longrightarrow> ranks_before a c"
  by (auto simp: ranks_before_def)

lemma set_place: "set (place c ds) = insert c (set ds)"
  by (induction ds) auto

lemma set_rank: "set (rank cs) = set cs"
  by (induction cs) (auto simp: set_place)

lemma length_place: "length (place c ds) = Suc (length ds)"
  by (induction ds) auto

lemma length_rank: "length (rank cs) = length cs"
  by (induction cs) (auto simp: length_place)

lemma distinct_place: "distinct (place c ds) \<longleftrightarrow> c \<notin> set ds \<and> distinct ds"
  by (induction ds) (auto simp: set_place)

lemma distinct_rank: "distinct (rank cs) \<longleftrightarrow> distinct cs"
  by (induction cs) (auto simp: distinct_place set_rank)

lemma sorted_place:
  assumes "sorted_wrt ranks_before ds"
  shows "sorted_wrt ranks_before (place c ds)"
  using assms
proof (induction ds)
  case Nil
  then show ?case by simp
next
  case (Cons d ds)
  show ?case
  proof (cases "ranks_before c d")
    case True
    then have "\<forall>x\<in>set ds. ranks_before c x"
      using Cons.prems ranks_before_trans by auto
    then show ?thesis using True Cons.prems by simp
  next
    case False
    then have "ranks_before d c" using ranks_before_total by blast
    then show ?thesis using False Cons by (auto simp: set_place)
  qed
qed

lemma sorted_rank: "sorted_wrt ranks_before (rank cs)"
  by (induction cs) (auto intro: sorted_place)

lemma sorted_wrt_take_any: "sorted_wrt P xs \<Longrightarrow> sorted_wrt P (take n xs)"
  by (induction xs arbitrary: n) (auto simp: take_Cons split: nat.splits dest: in_set_takeD)

subsection \<open>Suppression\<close>

lemma area_nonneg: "0 \<le> area b"
  by (simp add: area_def)

lemma intersection_commute: "intersection a b = intersection b a"
  by (simp add: intersection_def max.commute min.commute)

lemma iou_commute: "iou a b = iou b a"
  by (simp add: iou_def intersection_commute [of a b] add.commute)

lemma set_nms: "set (nms thr e cs) \<subseteq> set cs"
  by (induction thr e cs rule: nms.induct) auto

lemma distinct_nms: "distinct cs \<Longrightarrow> distinct (nms thr e cs)"
proof (induction thr e cs rule: nms.induct)
  case (1 thr e)
  then show ?case by simp
next
  case (2 thr e c cs)
  have "c \<notin> set (nms (thr * e) e (filter (\<lambda>d. iou (decodedBox c) (decodedBox d) < thr) cs))"
    using set_nms [of "thr * e" e "filter (\<lambda>d. iou (decodedBox c) (decodedBox d) < thr) cs"] "2.prems"
    by auto
  then show ?case using 2 by simp
qed

lemma nms_pairwise_aux:
  "e = 1 \<Longrightarrow> sorted_wrt (\<lambda>a b. iou (decodedBox a) (decodedBox b) < thr) (nms thr e cs)"
proof (induction thr e cs rule: nms.induct)
  case (1 thr e)
  then show ?case by simp
next
  case (2 thr e c cs)
  let ?rest = "nms (thr * e) e (filter (\<lambda>d. iou (decodedBox c) (decodedBox d) < thr) cs)"
  have t: "thr * e = thr" using "2.prems" by simp
  have "set ?rest \<subseteq> set (filter (\<lambda>d. iou (decodedBox c) (decodedBox d) < thr) cs)"
    by (rule set_nms)
  then have first: "\<forall>d\<in>set ?rest. iou (decodedBox c) (decodedBox d) < thr" by auto
  have "sorted_wrt (\<lambda>a b. iou (decodedBox a) (decodedBox b) < thr * e) ?rest"
    using "2.IH" "2.prems" by blast
  then have rest: "sorted_wrt (\<lambda>a b. iou (decodedBox a) (decodedBox b) < thr) ?rest"
    by (simp only: t)
  have "nms thr e (c # cs) = c # ?rest" by (rule nms.simps(2))
  then show ?case using first rest by (simp only: sorted_wrt.simps)
qed

lemma nms_pairwise:
  "sorted_wrt (\<lambda>a b. iou (decodedBox a) (decodedBox b) < thr) (nms thr 1 cs)"
  by (rule nms_pairwise_aux) simp

lemma sorted_wrt_sym_pairs:
  assumes "sorted_wrt P xs" "\<And>a b. P a b \<Longrightarrow> P b a"
    and "a \<in> set xs" "b \<in> set xs" "a \<noteq> b"
  shows "P a b"
  using assms(1,3,4,5)
proof (induction xs)
  case Nil
  then show ?case by simp
next
  case (Cons x xs)
  then show ?case using assms(2) by auto
qed

lemma nms_no_overlap:
  assumes "a \<in> set (nms thr 1 cs)" "b \<in> set (nms thr 1 cs)" "a \<noteq> b"
  shows "iou (decodedBox a) (decodedBox b) < thr"
proof (rule sorted_wrt_sym_pairs [OF nms_pairwise _ assms])
  fix x y :: candidate
  assume "iou (decodedBox x) (decodedBox y) < thr"
  then show "iou (decodedBox y) (decodedBox x) < thr" by (simp add: iou_commute)
qed


subsection \<open>Candidates, survivors and the pool\<close>

lemma candidates_class: "x \<in> set (candidates cfg numPriors decoded conf img c) \<Longrightarrow> classLabel x = c"
  by (auto simp: candidates_def)

lemma distinct_candidates: "distinct (candidates cfg numPriors decoded conf img c)"
proof -
  have "map anchorIndex (candidates cfg numPriors decoded conf img c)
      = filter (\<lambda>i. confidenceThreshold cfg < conf ! ((img * numPriors + i) * numClasses cfg + c))
          [0..<numPriors]"
    by (simp add: candidates_def comp_def)
  then have "distinct (map anchorIndex (candidates cfg numPriors decoded conf img c))" by simp
  then show ?thesis by (simp add: distinct_map)
qed

lemma set_ranked_class:
  "set (ranked_class cfg numPriors decoded conf img c) \<subseteq> set (candidates cfg numPriors decoded conf img c)"
  using set_take_subset [of "topK cfg" "rank (candidates cfg numPriors decoded conf img c)"]
  by (simp add: ranked_class_def set_rank)

lemma distinct_ranked_class: "distinct (ranked_class cfg numPriors decoded conf img c)"
  by (simp add: ranked_class_def distinct_rank distinct_candidates)

lemma set_survivors:
  "set (survivors cfg numPriors decoded conf img c) \<subseteq> set (ranked_class cfg numPriors decoded conf img c)"
  by (simp add: survivors_def set_nms)

lemma distinct_survivors: "distinct (survivors cfg numPriors decoded conf img c)"
  by (simp add: survivors_def distinct_nms distinct_ranked_class)

lemma survivors_class:
  assumes "x \<in> set (survivors cfg numPriors decoded conf img c)"
  shows "classLabel x = c"
proof -
  have "x \<in> set (ranked_class cfg numPriors decoded conf img c)"
    using assms set_survivors by (rule subsetD [rotated])
  then have "x \<in> set (candidates cfg numPriors decoded conf img c)"
    using set_ranked_class by (rule subsetD [rotated])
  then show ?thesis by (rule candidates_class)
qed

lemma distinct_foreground: "distinct (foreground cfg)"
  by (simp add: foreground_def)

lemma foreground_not_background: "c \<in> set (foreground cfg) \<Longrightarrow> c \<noteq> backgroundLabelId cfg"
  by (simp add: foreground_def)

lemma distinct_concat_map:
  assumes "distinct cs" "\<And>c. distinct (f c)"
    and "\<And>c d. c \<noteq> d \<Longrightarrow> set (f c) \<inter> set (f d) = {}"
  shows "distinct (concat (map f cs))"
  using assms(1)
proof (induction cs)
  case Nil
  then show ?case by simp
next
  case (Cons c cs)
  have "\<And>d. d \<in> set cs \<Longrightarrow> set (f c) \<inter> set (f d) = {}"
  proof -
    fix d assume "d \<in> set cs"
    then have "c \<noteq> d" using Cons.prems by auto
    then show "set (f c) \<inter> set (f d) = {}" by (rule assms(3))
  qed
  then have "set (f c) \<inter> (\<Union>d\<in>set cs. set (f d)) = {}" by blast
  then show ?case using Cons assms(2) by simp
qed

lemma pooled_member:
  "x \<in> set (pooled cfg numPriors decoded conf img) \<longleftrightarrow>
     classLabel x \<in> set (foreground cfg) \<and> x \<in> set (survivors cfg numPriors decoded conf img (classLabel x))"
  using survivors_class by (auto simp: pooled_def)

lemma distinct_pooled: "distinct (pooled cfg numPriors decoded conf img)"
  unfolding pooled_def
proof (rule distinct_concat_map)
  show "distinct (foreground cfg)" by (rule distinct_foreground)
  show "\<And>c. distinct (survivors cfg numPriors decoded conf img c)" by (rule distinct_survivors)
  show "\<And>c d. c \<noteq> d \<Longrightarrow>
      set (survivors cfg numPriors decoded conf img c) \<inter> set (survivors cfg numPriors decoded conf img d) = {}"
    using survivors_class by blast
qed

lemma set_kept: "set (kept cfg numPriors decoded conf img) \<subseteq> set (pooled cfg numPriors decoded conf img)"
  using set_take_subset [of "keepTopK cfg" "rank (pooled cfg numPriors decoded conf img)"]
  by (simp add: kept_def set_rank)

lemma distinct_kept: "distinct (kept cfg numPriors decoded conf img)"
  by (simp add: kept_def distinct_rank distinct_pooled)

lemma length_kept: "length (kept cfg numPriors decoded conf img) \<le> keepTopK cfg"
  by (simp add: kept_def)

lemma kept_survivor:
  assumes "x \<in> set (kept cfg numPriors decoded conf img)"
  shows "classLabel x \<noteq> backgroundLabelId cfg
    \<and> x \<in> set (survivors cfg numPriors decoded conf img (classLabel x))"
  using assms set_kept pooled_member foreground_not_background by blast

lemma sorted_ranked_class: "sorted_wrt ranks_before (ranked_class cfg numPriors decoded conf img c)"
  by (simp add: ranked_class_def sorted_rank sorted_wrt_take_any)

lemma sorted_kept: "sorted_wrt ranks_before (kept cfg numPriors decoded conf img)"
  by (simp add: kept_def sorted_rank sorted_wrt_take_any)


subsection \<open>Rows\<close>

lemma row_of_candidate [simp]:
  "row_imageIndex (to_row img c) = real img"
  "row_classLabel (to_row img c) = real (classLabel c)"
  "row_confidence (to_row img c) = score c"
  "row_box (to_row img c) = decodedBox c"
  by (simp_all add: to_row_def row_imageIndex_def row_classLabel_def row_confidence_def row_box_def)

lemma row_of_padding [simp]:
  "row_imageIndex padding_row = - 1" "row_classLabel padding_row = 0"
  by (simp_all add: padding_row_def row_imageIndex_def row_classLabel_def)

lemma detection_rows_member:
  "r \<in> set (detection_rows cfg batchSize numPriors decoded conf) \<longleftrightarrow>
     (\<exists>img<batchSize. \<exists>c\<in>set (kept cfg numPriors decoded conf img). r = to_row img c)"
  by (auto simp: detection_rows_def)

lemma length_concat_bound:
  assumes "\<And>m. length (f m) \<le> k"
  shows "length (concat (map f [0..<n])) \<le> n * k"
proof (induction n)
  case 0
  then show ?case by simp
next
  case (Suc n)
  then show ?case using assms [of n] by simp
qed

lemma length_detection_rows:
  "length (detection_rows cfg batchSize numPriors decoded conf) \<le> batchSize * keepTopK cfg"
  unfolding detection_rows_def
  by (rule length_concat_bound) (simp add: length_kept)

lemma decode_rows:
  assumes "decode cfg batchSize numPriors decoded conf = Inr rows"
  shows "rows = detection_rows cfg batchSize numPriors decoded conf
      @ replicate (batchSize * keepTopK cfg - length (detection_rows cfg batchSize numPriors decoded conf))
          padding_row"
  using assms by (simp add: decode_def Let_def split: if_splits)

lemma decode_total:
  assumes "length conf = batchSize * numPriors * numClasses cfg"
  shows "\<exists>rows. decode cfg batchSize numPriors decoded conf = Inr rows"
  using assms by (simp add: decode_def Let_def)

text \<open>
  Every row has seven values, so the rows of a call fill \<open>batchSize\<close> times the buffer that
  \<^verbatim>\<open>main.cpp\<close> allocates for the output: exactly that buffer for a batch of one image.
\<close>

lemma decode_row_length:
  assumes "decode cfg batchSize numPriors decoded conf = Inr rows" "r \<in> set rows"
  shows "length r = 7"
proof -
  from assms(2) have "r \<in> set (detection_rows cfg batchSize numPriors decoded conf) \<or> r = padding_row"
    unfolding decode_rows [OF assms(1)] by auto
  then show ?thesis
    by (auto simp: detection_rows_member to_row_def padding_row_def)
qed

lemma length_concat_rows:
  assumes "\<And>r. r \<in> set rows \<Longrightarrow> length r = k"
  shows "length (concat rows) = length rows * k"
  using assms by (induction rows) simp_all

lemma decode_fills_blob:
  assumes "decode (demo_config num_classes) batchSize numPriors decoded conf = Inr rows"
  shows "length (concat rows) = batchSize * blob_size detectionOutLayerOutDims"
proof -
  have "length rows = batchSize * keepTopK (demo_config num_classes)"
    using assms length_detection_rows [of "demo_config num_classes" batchSize numPriors decoded conf]
    by (auto simp: decode_def Let_def split: if_splits)
  moreover have "length (concat rows) = length rows * 7"
    by (rule length_concat_rows) (rule decode_row_length [OF assms])
  ultimately show ?thesis
    by (simp add: demo_config_def blob_size_def detectionOutLayerOutDims_def)
qed

lemma filter_concat_one:
  assumes "\<And>m. filter P (f m) = (if m = n then f n else [])"
  shows "filter P (concat (map f [0..<k])) = (if n < k then f n else [])"
proof (induction k)
  case 0
  then show ?case by simp
next
  case (Suc k)
  then show ?case using assms [of k] by (auto simp: less_Suc_eq)
qed

lemma rows_of_image:
  "filter (\<lambda>r. row_imageIndex r = real n) (detection_rows cfg batchSize numPriors decoded conf)
     = (if n < batchSize then map (to_row n) (kept cfg numPriors decoded conf n) else [])"
  unfolding detection_rows_def
  by (rule filter_concat_one) (auto simp: filter_map comp_def)

lemma rows_of_image_decode:
  assumes "decode cfg batchSize numPriors decoded conf = Inr rows" "n < batchSize"
  shows "filter (\<lambda>r. row_imageIndex r = real n) rows = map (to_row n) (kept cfg numPriors decoded conf n)"
  unfolding decode_rows [OF assms(1)] using assms(2) by (simp add: rows_of_image)


lemmas decode_eval =
  decode_def detection_rows_def kept_def pooled_def foreground_def survivors_def
  ranked_class_def candidates_def ranks_before_def iou_def area_def intersection_def
  to_row_def padding_row_def unit_boxes_def scenario_config_def demo_config_def Let_def

lemma upt_2: "[0..<2] = [0, 1]"
  by (simp add: upt_rec numeral_2_eq_2)

lemma upt_3: "[0..<3] = [0, 1, 2]"
  by (simp add: upt_rec numeral_3_eq_3)

lemma scenario_a:
  "decode scenario_config 1 2 unit_boxes [1 / 10, 9 / 10, 8 / 10, 2 / 10]
     = Inr [[0, 1, 9 / 10, 0, 0, 1, 1], padding_row, padding_row]"
  by (simp add: decode_eval upt_2 numeral_3_eq_3)

lemma scenario_b:
  "decode (scenario_config \<lparr> confidenceThreshold := 0 \<rparr>) 1 2 unit_boxes [1 / 10, 9 / 10, 2 / 10, 8 / 10]
     = Inr [[0, 1, 9 / 10, 0, 0, 1, 1], padding_row, padding_row]"
  by (simp add: decode_eval upt_2 numeral_3_eq_3)

lemma scenario_c:
  "decode (scenario_config \<lparr> numClasses := 3, keepTopK := 1 \<rparr>) 1 1 unit_boxes [1 / 10, 6 / 10, 9 / 10]
     = Inr [[0, 2, 9 / 10, 0, 0, 1, 1]]"
  by (simp add: decode_eval upt_3)


lemma padding_rows_of_decode:
  assumes "decode cfg batchSize numPriors decoded conf = Inr rows"
  shows "length rows = batchSize * keepTopK cfg
    \<and> (\<forall>j<length (detection_rows cfg batchSize numPriors decoded conf).
          rows ! j = detection_rows cfg batchSize numPriors decoded conf ! j
        \<and> 0 \<le> row_imageIndex (rows ! j))
    \<and> (\<forall>j. length (detection_rows cfg batchSize numPriors decoded conf) \<le> j \<and> j < length rows
          \<longrightarrow> rows ! j = padding_row \<and> row_imageIndex (rows ! j) = - 1)
    \<and> (\<forall>j<length rows.
          (row_imageIndex (rows ! j) < 0)
            = (length (detection_rows cfg batchSize numPriors decoded conf) \<le> j))"
proof -
  let ?d = "detection_rows cfg batchSize numPriors decoded conf"
  let ?k = "batchSize * keepTopK cfg - length ?d"
  have rows: "rows = ?d @ replicate ?k padding_row" by (rule decode_rows [OF assms])
  have len: "length rows = batchSize * keepTopK cfg"
    unfolding rows using length_detection_rows [of cfg batchSize numPriors decoded conf] by simp
  have used: "\<forall>j<length ?d. rows ! j = ?d ! j \<and> 0 \<le> row_imageIndex (rows ! j)"
  proof (intro allI impI)
    fix j assume j: "j < length ?d"
    then have e: "rows ! j = ?d ! j" unfolding rows by (simp add: nth_append)
    have "?d ! j \<in> set ?d" using j by simp
    then obtain img c where "?d ! j = to_row img c" unfolding detection_rows_member by blast
    then show "rows ! j = ?d ! j \<and> 0 \<le> row_imageIndex (rows ! j)" using e by simp
  qed
  have unused: "\<forall>j. length ?d \<le> j \<and> j < length rows
      \<longrightarrow> rows ! j = padding_row \<and> row_imageIndex (rows ! j) = - 1"
  proof (intro allI impI)
    fix j assume j: "length ?d \<le> j \<and> j < length rows"
    then have "j - length ?d < ?k" unfolding rows by auto
    then have "rows ! j = padding_row" using j unfolding rows by (simp add: nth_append)
    then show "rows ! j = padding_row \<and> row_imageIndex (rows ! j) = - 1" by simp
  qed
  have iff: "\<forall>j<length rows. (row_imageIndex (rows ! j) < 0) = (length ?d \<le> j)"
  proof (intro allI impI)
    fix j assume j: "j < length rows"
    show "(row_imageIndex (rows ! j) < 0) = (length ?d \<le> j)"
    proof (cases "j < length ?d")
      case True
      then show ?thesis using used by auto
    next
      case False
      then show ?thesis using unused j by auto
    qed
  qed
  show ?thesis using len used unused iff by blast
qed

text \<open>
  C2.  The output holds \<open>keepTopK\<close> rows per image of the batch.  The detections come first,
  each with a non-negative image index; every row after them is the padding row, whose
  image index is \<open>-1\<close>.  So a row is padding exactly when its image index is negative.
\<close>

theorem padding_rows_sentinel:
  assumes "length conf = batchSize * numPriors * numClasses cfg"
  shows "\<exists>rows. decode cfg batchSize numPriors decoded conf = Inr rows
    \<and> length rows = batchSize * keepTopK cfg
    \<and> (\<forall>j<length (detection_rows cfg batchSize numPriors decoded conf).
          rows ! j = detection_rows cfg batchSize numPriors decoded conf ! j
        \<and> 0 \<le> row_imageIndex (rows ! j))
    \<and> (\<forall>j. length (detection_rows cfg batchSize numPriors decoded conf) \<le> j \<and> j < length rows
          \<longrightarrow> rows ! j = padding_row \<and> row_imageIndex (rows ! j) = - 1)
    \<and> (\<forall>j<length rows.
          (row_imageIndex (rows ! j) < 0)
            = (length (detection_rows cfg batchSize numPriors decoded conf) \<le> j))"
proof -
  from decode_total [OF assms] obtain rows
    where rows: "decode cfg batchSize numPriors decoded conf = Inr rows" by blast
  show ?thesis using rows padding_rows_of_decode [OF rows] by blast
qed

theorem padding_rows_sentinel_witness:
  "decode scenario_config 1 2 unit_boxes [1 / 10, 9 / 10, 8 / 10, 2 / 10]
     = Inr [[0, 1, 9 / 10, 0, 0, 1, 1], padding_row, padding_row]
   \<and> length [[0, 1, 9 / 10, 0, 0, 1, 1], padding_row, padding_row] = 1 * keepTopK scenario_config
   \<and> 0 \<le> row_imageIndex ([[0, 1, 9 / 10, 0, 0, 1, 1], padding_row, padding_row] ! 0)
   \<and> row_imageIndex ([[0, 1, 9 / 10, 0, 0, 1, 1], padding_row, padding_row] ! 1) = - 1
   \<and> row_imageIndex ([[0, 1, 9 / 10, 0, 0, 1, 1], padding_row, padding_row] ! 2) = - 1"
proof -
  have h: "length [1 / 10, 9 / 10, 8 / 10, 2 / 10 :: real] = 1 * 2 * numClasses scenario_config"
    by (simp add: scenario_config_def)
  have d: "detection_rows scenario_config 1 2 unit_boxes [1 / 10, 9 / 10, 8 / 10, 2 / 10]
      = [[0, 1, 9 / 10, 0, 0, 1, 1]]"
    by (simp add: decode_eval upt_2)
  show ?thesis
    using padding_rows_sentinel [OF h, of unit_boxes] unfolding d scenario_a by simp
qed

lemma background_not_in_rows:
  assumes "decode cfg batchSize numPriors decoded conf = Inr rows"
  shows "(\<forall>r\<in>set rows. row_imageIndex r \<noteq> - 1 \<longrightarrow> row_classLabel r \<noteq> real (backgroundLabelId cfg))
    \<and> (\<forall>j<length (detection_rows cfg batchSize numPriors decoded conf).
          row_classLabel (rows ! j) \<noteq> real (backgroundLabelId cfg))"
proof -
  let ?d = "detection_rows cfg batchSize numPriors decoded conf"
  let ?k = "batchSize * keepTopK cfg - length ?d"
  have rows: "rows = ?d @ replicate ?k padding_row" by (rule decode_rows [OF assms])
  have det: "\<And>r. r \<in> set ?d \<Longrightarrow> row_classLabel r \<noteq> real (backgroundLabelId cfg)"
  proof -
    fix r assume "r \<in> set ?d"
    then obtain img c where c: "c \<in> set (kept cfg numPriors decoded conf img)" "r = to_row img c"
      unfolding detection_rows_member by blast
    have "classLabel c \<noteq> backgroundLabelId cfg" using kept_survivor [OF c(1)] by simp
    then show "row_classLabel r \<noteq> real (backgroundLabelId cfg)" using c(2) by simp
  qed
  have a: "\<forall>r\<in>set rows. row_imageIndex r \<noteq> - 1 \<longrightarrow> row_classLabel r \<noteq> real (backgroundLabelId cfg)"
  proof (intro ballI impI)
    fix r assume r: "r \<in> set rows" "row_imageIndex r \<noteq> - 1"
    then have "r \<in> set ?d \<or> r = padding_row" unfolding rows by auto
    then have "r \<in> set ?d" using r(2) by auto
    then show "row_classLabel r \<noteq> real (backgroundLabelId cfg)" by (rule det)
  qed
  have b: "\<forall>j<length ?d. row_classLabel (rows ! j) \<noteq> real (backgroundLabelId cfg)"
  proof (intro allI impI)
    fix j assume j: "j < length ?d"
    then have "rows ! j = ?d ! j" unfolding rows by (simp add: nth_append)
    then show "row_classLabel (rows ! j) \<noteq> real (backgroundLabelId cfg)" using det j by simp
  qed
  show ?thesis using a b by blast
qed

text \<open>
  C5.  The background class is never emitted as a detection: no detection row of the output,
  that is no row whose image index is not the padding sentinel, carries the background
  label.
\<close>

theorem background_never_detected:
  assumes "length conf = batchSize * numPriors * numClasses cfg"
  shows "\<exists>rows. decode cfg batchSize numPriors decoded conf = Inr rows
    \<and> (\<forall>r\<in>set rows. row_imageIndex r \<noteq> - 1 \<longrightarrow> row_classLabel r \<noteq> real (backgroundLabelId cfg))
    \<and> (\<forall>j<length (detection_rows cfg batchSize numPriors decoded conf).
          row_classLabel (rows ! j) \<noteq> real (backgroundLabelId cfg))"
proof -
  from decode_total [OF assms] obtain rows
    where rows: "decode cfg batchSize numPriors decoded conf = Inr rows" by blast
  show ?thesis using rows background_not_in_rows [OF rows] by blast
qed

theorem background_never_detected_witness:
  "decode scenario_config 1 2 unit_boxes [1 / 10, 9 / 10, 8 / 10, 2 / 10]
     = Inr [[0, 1, 9 / 10, 0, 0, 1, 1], padding_row, padding_row]
   \<and> row_classLabel ([[0, 1, 9 / 10, 0, 0, 1, 1], padding_row, padding_row] ! 0)
       \<noteq> real (backgroundLabelId scenario_config)"
proof -
  have h: "length [1 / 10, 9 / 10, 8 / 10, 2 / 10 :: real] = 1 * 2 * numClasses scenario_config"
    by (simp add: scenario_config_def)
  have d: "detection_rows scenario_config 1 2 unit_boxes [1 / 10, 9 / 10, 8 / 10, 2 / 10]
      = [[0, 1, 9 / 10, 0, 0, 1, 1]]"
    by (simp add: decode_eval upt_2)
  show ?thesis
    using background_never_detected [OF h, of unit_boxes] unfolding d scenario_a by simp
qed


lemma ranks_before_score: "ranks_before a b \<Longrightarrow> score b \<le> score a"
  by (auto simp: ranks_before_def)

lemma sorted_rows_of_decode:
  assumes "decode cfg batchSize numPriors decoded conf = Inr rows" "img < batchSize"
  shows "sorted_wrt ranks_before (ranked_class cfg numPriors decoded conf img c)
    \<and> sorted_wrt ranks_before (kept cfg numPriors decoded conf img)
    \<and> filter (\<lambda>r. row_imageIndex r = real img) rows
        = map (to_row img) (kept cfg numPriors decoded conf img)
    \<and> sorted_wrt (\<lambda>r s. row_confidence s \<le> row_confidence r)
        (filter (\<lambda>r. row_imageIndex r = real img) rows)"
proof -
  let ?kept = "kept cfg numPriors decoded conf img"
  have f: "filter (\<lambda>r. row_imageIndex r = real img) rows = map (to_row img) ?kept"
    by (rule rows_of_image_decode [OF assms])
  have "sorted_wrt (\<lambda>a b. score b \<le> score a) ?kept"
    using sorted_kept ranks_before_score by (rule sorted_wrt_mono_rel [rotated])
  then have "sorted_wrt (\<lambda>r s. row_confidence s \<le> row_confidence r) (map (to_row img) ?kept)"
    by (simp add: sorted_wrt_map)
  then show ?thesis using f sorted_ranked_class sorted_kept by simp
qed

lemma scenario_tie:
  "decode scenario_config 1 2 spread_boxes [1 / 10, 9 / 10, 1 / 10, 9 / 10]
     = Inr [[0, 1, 9 / 10, 0, 0, 1, 1], [0, 1, 9 / 10, 2, 0, 3, 1], padding_row]"
  by (simp add: decode_eval spread_boxes_def upt_2 numeral_3_eq_3)

lemma scenario_tie_kept:
  "map anchorIndex (kept scenario_config 2 spread_boxes [1 / 10, 9 / 10, 1 / 10, 9 / 10] 0) = [0, 1]"
  by (simp add: decode_eval spread_boxes_def upt_2)

text \<open>
  C4.  After the per-class sort and cap, and again after the cross-class merge, the
  candidates are in descending confidence, equal confidences in ascending anchor index.
  The rows of one image, in the order of the output, are the rows of the merged candidates,
  so their confidences never increase.
\<close>

theorem output_sorted:
  assumes "length conf = batchSize * numPriors * numClasses cfg" "img < batchSize"
  shows "\<exists>rows. decode cfg batchSize numPriors decoded conf = Inr rows
    \<and> sorted_wrt ranks_before (ranked_class cfg numPriors decoded conf img c)
    \<and> sorted_wrt ranks_before (kept cfg numPriors decoded conf img)
    \<and> filter (\<lambda>r. row_imageIndex r = real img) rows
        = map (to_row img) (kept cfg numPriors decoded conf img)
    \<and> sorted_wrt (\<lambda>r s. row_confidence s \<le> row_confidence r)
        (filter (\<lambda>r. row_imageIndex r = real img) rows)"
proof -
  from decode_total [OF assms(1)] obtain rows
    where rows: "decode cfg batchSize numPriors decoded conf = Inr rows" by blast
  show ?thesis using rows sorted_rows_of_decode [OF rows assms(2)] by blast
qed

theorem output_sorted_witness:
  "decode scenario_config 1 2 spread_boxes [1 / 10, 9 / 10, 1 / 10, 9 / 10]
     = Inr [[0, 1, 9 / 10, 0, 0, 1, 1], [0, 1, 9 / 10, 2, 0, 3, 1], padding_row]
   \<and> sorted_wrt ranks_before (kept scenario_config 2 spread_boxes [1 / 10, 9 / 10, 1 / 10, 9 / 10] 0)
   \<and> map anchorIndex (kept scenario_config 2 spread_boxes [1 / 10, 9 / 10, 1 / 10, 9 / 10] 0) = [0, 1]
   \<and> sorted_wrt (\<lambda>r s. row_confidence s \<le> row_confidence r)
        (filter (\<lambda>r. row_imageIndex r = real 0)
           [[0, 1, 9 / 10, 0, 0, 1, 1], [0, 1, 9 / 10, 2, 0, 3, 1], padding_row])"
proof -
  have h: "length [1 / 10, 9 / 10, 1 / 10, 9 / 10 :: real] = 1 * 2 * numClasses scenario_config"
    by (simp add: scenario_config_def)
  have b: "(0 :: nat) < 1" by simp
  from output_sorted [OF h b, of spread_boxes]
  have "sorted_wrt ranks_before (kept scenario_config 2 spread_boxes [1 / 10, 9 / 10, 1 / 10, 9 / 10] 0)
    \<and> sorted_wrt (\<lambda>r s. row_confidence s \<le> row_confidence r)
        (filter (\<lambda>r. row_imageIndex r = real 0)
           [[0, 1, 9 / 10, 0, 0, 1, 1], [0, 1, 9 / 10, 2, 0, 3, 1], padding_row])"
    unfolding scenario_tie by blast
  then show ?thesis using scenario_tie scenario_tie_kept by blast
qed

lemma no_overlap_of_decode:
  assumes "eta cfg = 1"
    and "decode cfg batchSize numPriors decoded conf = Inr rows" "img < batchSize"
  shows "sorted_wrt (\<lambda>a b. iou (decodedBox a) (decodedBox b) < nmsThreshold cfg)
        (survivors cfg numPriors decoded conf img c)
    \<and> (\<forall>a\<in>set (survivors cfg numPriors decoded conf img c).
        \<forall>b\<in>set (survivors cfg numPriors decoded conf img c).
          a \<noteq> b \<longrightarrow> iou (decodedBox a) (decodedBox b) < nmsThreshold cfg)
    \<and> (\<forall>i j. i < j \<and> j < length (ranked_class cfg numPriors decoded conf img c)
          \<and> ranked_class cfg numPriors decoded conf img c ! i
               \<in> set (survivors cfg numPriors decoded conf img c)
          \<and> nmsThreshold cfg
               \<le> iou (decodedBox (ranked_class cfg numPriors decoded conf img c ! i))
                     (decodedBox (ranked_class cfg numPriors decoded conf img c ! j))
          \<longrightarrow> ranked_class cfg numPriors decoded conf img c ! j
               \<notin> set (survivors cfg numPriors decoded conf img c))
    \<and> (\<forall>i j. i < j \<and> j < length (filter (\<lambda>r. row_imageIndex r = real img) rows)
          \<and> row_classLabel (filter (\<lambda>r. row_imageIndex r = real img) rows ! i)
              = row_classLabel (filter (\<lambda>r. row_imageIndex r = real img) rows ! j)
          \<longrightarrow> iou (row_box (filter (\<lambda>r. row_imageIndex r = real img) rows ! i))
                  (row_box (filter (\<lambda>r. row_imageIndex r = real img) rows ! j))
                < nmsThreshold cfg)"
proof -
  let ?thr = "nmsThreshold cfg"
  let ?ranked = "ranked_class cfg numPriors decoded conf img c"
  let ?surv = "survivors cfg numPriors decoded conf img c"
  let ?kept = "kept cfg numPriors decoded conf img"
  let ?rs = "filter (\<lambda>r. row_imageIndex r = real img) rows"
  have surv: "\<And>k. survivors cfg numPriors decoded conf img k
      = nms ?thr 1 (ranked_class cfg numPriors decoded conf img k)"
    using assms(1) by (simp add: survivors_def)
  have one: "sorted_wrt (\<lambda>a b. iou (decodedBox a) (decodedBox b) < ?thr) ?surv"
    unfolding surv by (rule nms_pairwise)
  have pairs: "\<And>k a b. a \<in> set (survivors cfg numPriors decoded conf img k)
      \<Longrightarrow> b \<in> set (survivors cfg numPriors decoded conf img k) \<Longrightarrow> a \<noteq> b
      \<Longrightarrow> iou (decodedBox a) (decodedBox b) < ?thr"
    unfolding surv by (rule nms_no_overlap)
  have two: "\<forall>a\<in>set ?surv. \<forall>b\<in>set ?surv. a \<noteq> b \<longrightarrow> iou (decodedBox a) (decodedBox b) < ?thr"
    using pairs by blast
  have three: "\<forall>i j. i < j \<and> j < length ?ranked \<and> ?ranked ! i \<in> set ?surv
      \<and> ?thr \<le> iou (decodedBox (?ranked ! i)) (decodedBox (?ranked ! j))
      \<longrightarrow> ?ranked ! j \<notin> set ?surv"
  proof (intro allI impI notI)
    fix i j
    assume h: "i < j \<and> j < length ?ranked \<and> ?ranked ! i \<in> set ?surv
      \<and> ?thr \<le> iou (decodedBox (?ranked ! i)) (decodedBox (?ranked ! j))"
      and in_j: "?ranked ! j \<in> set ?surv"
    have "?ranked ! i \<noteq> ?ranked ! j"
      using h distinct_ranked_class [of cfg numPriors decoded conf img c]
      by (simp add: nth_eq_iff_index_eq)
    then have "iou (decodedBox (?ranked ! i)) (decodedBox (?ranked ! j)) < ?thr"
      using pairs h in_j by blast
    then show False using h by simp
  qed
  have f: "?rs = map (to_row img) ?kept" by (rule rows_of_image_decode [OF assms(2,3)])
  have four: "\<forall>i j. i < j \<and> j < length ?rs \<and> row_classLabel (?rs ! i) = row_classLabel (?rs ! j)
      \<longrightarrow> iou (row_box (?rs ! i)) (row_box (?rs ! j)) < ?thr"
  proof (intro allI impI)
    fix i j
    assume h: "i < j \<and> j < length ?rs \<and> row_classLabel (?rs ! i) = row_classLabel (?rs ! j)"
    then have ij: "i < length ?kept" "j < length ?kept" "i \<noteq> j" unfolding f by simp_all
    have cl: "classLabel (?kept ! i) = classLabel (?kept ! j)" using h ij unfolding f by simp
    have ne: "?kept ! i \<noteq> ?kept ! j"
      using ij distinct_kept [of cfg numPriors decoded conf img] by (simp add: nth_eq_iff_index_eq)
    have si: "?kept ! i \<in> set (survivors cfg numPriors decoded conf img (classLabel (?kept ! i)))"
      using kept_survivor [of "?kept ! i" cfg numPriors decoded conf img] ij(1) by simp
    have sj: "?kept ! j \<in> set (survivors cfg numPriors decoded conf img (classLabel (?kept ! i)))"
      using kept_survivor [of "?kept ! j" cfg numPriors decoded conf img] ij(2) cl by simp
    have "iou (decodedBox (?kept ! i)) (decodedBox (?kept ! j)) < ?thr"
      by (rule pairs [OF si sj ne])
    then show "iou (row_box (?rs ! i)) (row_box (?rs ! j)) < ?thr" using ij unfolding f by simp
  qed
  show ?thesis using one two three four by blast
qed


lemma scenario_b_ranked:
  "ranked_class (scenario_config \<lparr> confidenceThreshold := 0 \<rparr>) 2 unit_boxes
       [1 / 10, 9 / 10, 2 / 10, 8 / 10] 0 1
     = [\<lparr> anchorIndex = 0, classLabel = 1, score = 9 / 10, decodedBox = unit_boxes 0 0 0 \<rparr>,
        \<lparr> anchorIndex = 1, classLabel = 1, score = 8 / 10, decodedBox = unit_boxes 0 1 0 \<rparr>]"
  by (simp add: decode_eval upt_2)

lemma scenario_b_survivors:
  "survivors (scenario_config \<lparr> confidenceThreshold := 0 \<rparr>) 2 unit_boxes
       [1 / 10, 9 / 10, 2 / 10, 8 / 10] 0 1
     = [\<lparr> anchorIndex = 0, classLabel = 1, score = 9 / 10, decodedBox = unit_boxes 0 0 0 \<rparr>]"
  by (simp add: decode_eval upt_2)

text \<open>
  C3.  With \<open>eta = 1\<close> the survivors of a class overlap pairwise by less than
  \<open>nmsThreshold\<close>; a candidate that comes after a retained one in the ranked list and
  overlaps it by \<open>nmsThreshold\<close> or more is not a survivor; and in the output any two rows
  of one image with the same class label overlap by less than \<open>nmsThreshold\<close>.
\<close>

theorem suppression_no_overlap:
  assumes "eta cfg = 1"
    and "length conf = batchSize * numPriors * numClasses cfg" "img < batchSize"
  shows "\<exists>rows. decode cfg batchSize numPriors decoded conf = Inr rows
    \<and> sorted_wrt (\<lambda>a b. iou (decodedBox a) (decodedBox b) < nmsThreshold cfg)
        (survivors cfg numPriors decoded conf img c)
    \<and> (\<forall>a\<in>set (survivors cfg numPriors decoded conf img c).
        \<forall>b\<in>set (survivors cfg numPriors decoded conf img c).
          a \<noteq> b \<longrightarrow> iou (decodedBox a) (decodedBox b) < nmsThreshold cfg)
    \<and> (\<forall>i j. i < j \<and> j < length (ranked_class cfg numPriors decoded conf img c)
          \<and> ranked_class cfg numPriors decoded conf img c ! i
               \<in> set (survivors cfg numPriors decoded conf img c)
          \<and> nmsThreshold cfg
               \<le> iou (decodedBox (ranked_class cfg numPriors decoded conf img c ! i))
                     (decodedBox (ranked_class cfg numPriors decoded conf img c ! j))
          \<longrightarrow> ranked_class cfg numPriors decoded conf img c ! j
               \<notin> set (survivors cfg numPriors decoded conf img c))
    \<and> (\<forall>i j. i < j \<and> j < length (filter (\<lambda>r. row_imageIndex r = real img) rows)
          \<and> row_classLabel (filter (\<lambda>r. row_imageIndex r = real img) rows ! i)
              = row_classLabel (filter (\<lambda>r. row_imageIndex r = real img) rows ! j)
          \<longrightarrow> iou (row_box (filter (\<lambda>r. row_imageIndex r = real img) rows ! i))
                  (row_box (filter (\<lambda>r. row_imageIndex r = real img) rows ! j))
                < nmsThreshold cfg)"
proof -
  from decode_total [OF assms(2)] obtain rows
    where rows: "decode cfg batchSize numPriors decoded conf = Inr rows" by blast
  show ?thesis using rows no_overlap_of_decode [OF assms(1) rows assms(3)] by blast
qed

theorem suppression_no_overlap_witness:
  "decode (scenario_config \<lparr> confidenceThreshold := 0 \<rparr>) 1 2 unit_boxes
       [1 / 10, 9 / 10, 2 / 10, 8 / 10]
     = Inr [[0, 1, 9 / 10, 0, 0, 1, 1], padding_row, padding_row]
   \<and> \<lparr> anchorIndex = 1, classLabel = 1, score = 8 / 10, decodedBox = unit_boxes 0 1 0 \<rparr>
     \<notin> set (survivors (scenario_config \<lparr> confidenceThreshold := 0 \<rparr>) 2 unit_boxes
              [1 / 10, 9 / 10, 2 / 10, 8 / 10] 0 1)
   \<and> nmsThreshold (scenario_config \<lparr> confidenceThreshold := 0 \<rparr>)
       \<le> iou (unit_boxes 0 0 0) (unit_boxes 0 1 0)"
proof -
  let ?cfg = "scenario_config \<lparr> confidenceThreshold := 0 \<rparr>"
  let ?conf = "[1 / 10, 9 / 10, 2 / 10, 8 / 10] :: real list"
  have e: "eta ?cfg = 1" by (simp add: scenario_config_def)
  have h: "length ?conf = 1 * 2 * numClasses ?cfg" by (simp add: scenario_config_def)
  have b: "(0 :: nat) < 1" by simp
  have o: "nmsThreshold ?cfg \<le> iou (unit_boxes 0 0 0) (unit_boxes 0 1 0)"
    by (simp add: decode_eval)
  have "0 < (1 :: nat) \<and> 1 < length (ranked_class ?cfg 2 unit_boxes ?conf 0 1)
      \<and> ranked_class ?cfg 2 unit_boxes ?conf 0 1 ! 0 \<in> set (survivors ?cfg 2 unit_boxes ?conf 0 1)
      \<and> nmsThreshold ?cfg
           \<le> iou (decodedBox (ranked_class ?cfg 2 unit_boxes ?conf 0 1 ! 0))
                 (decodedBox (ranked_class ?cfg 2 unit_boxes ?conf 0 1 ! 1))"
    unfolding scenario_b_ranked scenario_b_survivors using o by simp
  then have "ranked_class ?cfg 2 unit_boxes ?conf 0 1 ! 1 \<notin> set (survivors ?cfg 2 unit_boxes ?conf 0 1)"
    using suppression_no_overlap [OF e h b, of unit_boxes 1] by blast
  then have "\<lparr> anchorIndex = 1, classLabel = 1, score = 8 / 10, decodedBox = unit_boxes 0 1 0 \<rparr>
     \<notin> set (survivors ?cfg 2 unit_boxes ?conf 0 1)"
    unfolding scenario_b_ranked by simp
  then show ?thesis using o scenario_b by blast
qed

end
